theory Spec2Isabelle
  imports Complex_Main
begin

section \<open>Python values\<close>

text \<open>
  The service is one Python module, \<^verbatim>\<open>figma_api.py\<close>. Its data are JSON values as
  \<^verbatim>\<open>json.loads\<close> builds them: \<^verbatim>\<open>None\<close>, booleans, integers, floats, strings, lists and
  dictionaries with string keys. A string is a list of code points; the type \<open>char\<close>
  holds the code points below 256. A float is represented by the rational it denotes
  (the non-finite floats are not represented). A dictionary is the list of its items in
  order; a parsed dictionary has no repeated key, and on a list that repeats a key the
  lookup \<open>map_of\<close> reads the first item.
\<close>

datatype json =
    JNull
  | JBool bool
  | JInt int
  | JFloat rat
  | JStr string
  | JArr "json list"
  | JObj "(string \<times> json) list"

text \<open>Truth value testing (\<^verbatim>\<open>if x\<close>, \<^verbatim>\<open>not x\<close>).\<close>

fun truthy :: "json \<Rightarrow> bool" where
  "truthy JNull = False"
| "truthy (JBool b) = b"
| "truthy (JInt i) = (i \<noteq> 0)"
| "truthy (JFloat r) = (r \<noteq> 0)"
| "truthy (JStr s) = (s \<noteq> [])"
| "truthy (JArr xs) = (xs \<noteq> [])"
| "truthy (JObj kvs) = (kvs \<noteq> [])"

text \<open>
  Exceptions. A message built by an f-string is kept as the list of its fragments, so
  that \<^verbatim>\<open>str\<close> of a number, of a JSON value or of a caught exception stays symbolic:
  \<^verbatim>\<open>f"HTTP {code}"\<close> is \<open>[Lit ''HTTP '', StrInt code]\<close>. \<open>TypeError\<close> and
  \<open>AttributeError\<close> are raised by the interpreter (an operation on a value of the wrong
  type); \<open>RequestException m\<close> is any exception of the \<^verbatim>\<open>requests\<close> library, \<open>m\<close> its
  \<^verbatim>\<open>str\<close>; \<open>HTTPException code description\<close> is what Flask's \<^verbatim>\<open>abort\<close> raises
  (\<^verbatim>\<open>werkzeug.exceptions.HTTPException\<close>, a subclass of \<^verbatim>\<open>Exception\<close>).
\<close>

datatype frag = Lit string | StrInt int | StrJson json | StrExn exn
and exn =
    Exception "frag list"
  | ValueError "frag list"
  | TypeError
  | AttributeError
  | KeyError string
  | RequestException string
  | FileExistsError string
  | FileNotFoundError string
  | NotADirectoryError string
  | IsADirectoryError string
  | OSError string
  | HTTPException nat "frag list"

text \<open>\<^verbatim>\<open>x.get(key, default)\<close>: only a dictionary has the method.\<close>

fun py_get :: "json \<Rightarrow> string \<Rightarrow> json \<Rightarrow> exn + json" where
  "py_get (JObj kvs) k d = Inr (case map_of kvs k of Some v \<Rightarrow> v | None \<Rightarrow> d)"
| "py_get _ k d = Inl AttributeError"

text \<open>
  \<^verbatim>\<open>for x in v\<close>: a list yields its elements, a string its characters (strings of
  length one), a dictionary its keys; nothing else is iterable.
\<close>

fun py_iter :: "json \<Rightarrow> exn + json list" where
  "py_iter (JArr xs) = Inr xs"
| "py_iter (JStr s) = Inr (map (\<lambda>c. JStr [c]) s)"
| "py_iter (JObj kvs) = Inr (map (\<lambda>kv. JStr (fst kv)) kvs)"
| "py_iter _ = Inl TypeError"

text \<open>\<^verbatim>\<open>s.split(c)\<close> for a separator of one character.\<close>

fun split_on :: "char \<Rightarrow> string \<Rightarrow> string list" where
  "split_on sep [] = [[]]"
| "split_on sep (c # cs) =
     (if c = sep then [] # split_on sep cs
      else (case split_on sep cs of
              x # xs \<Rightarrow> (c # x) # xs
            | [] \<Rightarrow> [[c]]))"

section \<open>Regular expressions of the module\<close>

text \<open>The class \<^verbatim>\<open>[a-zA-Z0-9_-]\<close> of the two URL patterns.\<close>

definition id_char :: "char \<Rightarrow> bool" where
  "id_char c =
     (c \<in> set ''abcdefghijklmnopqrstuvwxyzABCDEFGHIJKLMNOPQRSTUVWXYZ0123456789_-'')"

text \<open>
  \<^verbatim>\<open>\w\<close> of a \<^verbatim>\<open>str\<close> pattern: the underscore and every alphanumeric code point of
  Unicode. Below 128 these are the ASCII letters and digits; from 128 to 255 they are
  the code points 170, 178, 179, 181, 185, 186, 188, 189, 190 and 192 to 255 without
  215 and 247.
\<close>

definition word_char :: "char \<Rightarrow> bool" where
  "word_char c =
     (let n = (of_char c :: nat) in
        (48 \<le> n \<and> n \<le> 57) \<or> (65 \<le> n \<and> n \<le> 90) \<or> n = 95 \<or> (97 \<le> n \<and> n \<le> 122)
        \<or> n \<in> {170, 178, 179, 181, 185, 186, 188, 189, 190}
        \<or> (192 \<le> n \<and> n \<noteq> 215 \<and> n \<noteq> 247))"

text \<open>
  A literal at the start of the subject: the rest of the subject after it, if it is
  there.
\<close>

definition strip_prefix :: "string \<Rightarrow> string \<Rightarrow> string option" where
  "strip_prefix p s = (if take (length p) s = p then Some (drop (length p) s) else None)"

text \<open>
  The pattern \<^verbatim>\<open>figma\.com/(?:a1|a2|...)/([a-zA-Z0-9_-]+)\<close> matched at the start of the
  subject, the alternatives tried in order; the value is group 1, the longest run of
  identifier characters (the quantifier is greedy and nothing follows it).
\<close>

fun match_alts :: "string list \<Rightarrow> string \<Rightarrow> string option" where
  "match_alts [] r = None"
| "match_alts (a # as) r =
     (case strip_prefix (a @ ''/'') r of
        None \<Rightarrow> match_alts as r
      | Some t \<Rightarrow>
          if takeWhile id_char t \<noteq> [] then Some (takeWhile id_char t)
          else match_alts as r)"

definition match_at :: "string list \<Rightarrow> string \<Rightarrow> string option" where
  "match_at alts s =
     (case strip_prefix ''figma.com/'' s of
        None \<Rightarrow> None
      | Some r \<Rightarrow> match_alts alts r)"

text \<open>\<^verbatim>\<open>re.search\<close>: the match at the leftmost position that has one.\<close>

fun re_search :: "string list \<Rightarrow> string \<Rightarrow> string option" where
  "re_search alts [] = match_at alts []"
| "re_search alts (c # cs) =
     (case match_at alts (c # cs) of
        Some k \<Rightarrow> Some k
      | None \<Rightarrow> re_search alts cs)"

text \<open>\<^verbatim>\<open>re.sub(r'[^\w\-_.]', '_', s)\<close>; a subject that is not a string is a TypeError.\<close>

definition safe_char :: "char \<Rightarrow> bool" where
  "safe_char c = (word_char c \<or> c = CHR ''-'' \<or> c = CHR ''_'' \<or> c = CHR ''.'')"

definition sanitize :: "string \<Rightarrow> string" where
  "sanitize s = map (\<lambda>c. if safe_char c then c else CHR ''_'') s"

fun re_sub_unsafe :: "json \<Rightarrow> exn + string" where
  "re_sub_unsafe (JStr s) = Inr (sanitize s)"
| "re_sub_unsafe _ = Inl TypeError"

section \<open>Document key from a URL\<close>

text \<open>
  The two patterns of \<^verbatim>\<open>extract_file_key\<close>, each given by its alternatives:
  \<^verbatim>\<open>figma\.com/(?:file|design)/([a-zA-Z0-9_-]+)\<close> and
  \<^verbatim>\<open>figma\.com/board/([a-zA-Z0-9_-]+)\<close>.
\<close>

definition pattern :: "string list" where
  "pattern = [''file'', ''design'']"

definition board_pattern :: "string list" where
  "board_pattern = [''board'']"

fun extract_file_key :: "json \<Rightarrow> exn + string" where
  "extract_file_key (JStr figma_url) =
     (case re_search pattern figma_url of
        Some k \<Rightarrow> Inr k
      | None \<Rightarrow>
          (case re_search board_pattern figma_url of
             Some k \<Rightarrow> Inr k
           | None \<Rightarrow> Inl (ValueError [Lit ''Invalid Figma URL''])))"
| "extract_file_key _ = Inl TypeError"

section \<open>The environment: configuration, network, file system, logger\<close>

text \<open>
  The module reads three settings from the process environment when it is loaded.
  \<^verbatim>\<open>FIGMA_API_TOKEN\<close> has no default and may be absent.
\<close>

record config =
  BASE_URL :: string
  FIGMA_API_TOKEN :: "string option"
  UPLOAD_FOLDER :: string

text \<open>
  One call of \<^verbatim>\<open>requests.get\<close> and what comes back: a response, or an exception of
  the library (\<open>Raised m\<close>, with \<open>m\<close> its \<^verbatim>\<open>str\<close>). \<open>json_body\<close> is the value of
  \<^verbatim>\<open>response.json()\<close>: \<open>Inr\<close> the parsed body, or \<open>Inl m\<close> when the body is not JSON
  and the call raises \<^verbatim>\<open>requests.exceptions.JSONDecodeError\<close> (a \<^verbatim>\<open>RequestException\<close>
  since requests 2.27) with message \<open>m\<close>.
\<close>

record request =
  req_url :: string
  req_headers :: "(string \<times> string option) list"
  req_params :: "(string \<times> json) list"

record response =
  status_code :: int
  resp_text :: string
  resp_content :: string
  json_body :: "string + json"

datatype outcome = Response response | Raised string

text \<open>
  The remote side is any function from the exchanges so far and the request to an
  outcome; the operating system may refuse to create or write any path (permissions,
  a name that is too long, a full disk). \<open>url_refusal\<close> is the \<^verbatim>\<open>str\<close> of the exception
  with which \<^verbatim>\<open>requests\<close> refuses a URL that it does not send. The process runs in the
  working directory \<open>cwd\<close>, and \<open>root_path\<close> is the \<^verbatim>\<open>root_path\<close> of the Flask
  application, the directory of the module. All are fixed for a run and arbitrary.
\<close>

record env = config +
  net :: "(request \<times> outcome) list \<Rightarrow> request \<Rightarrow> outcome"
  os_refuses :: "string \<Rightarrow> bool"
  url_refusal :: "json \<Rightarrow> string"
  cwd :: string
  root_path :: string

text \<open>
  What a run changes: the exchanges with remote servers in order, the file system, and
  the calls of the logger. The file system gives the node at an absolute path, the
  path taken as the list of its components: a file with its bytes, a directory, or
  nothing. The root, the empty list, is a directory. Symbolic links and \<^verbatim>\<open>..\<close> are not
  resolved: two paths that differ in them are two entries.
\<close>

datatype node = File string | Dir

datatype log_record = LogError "frag list" | LogWarning "frag list" | LogDebug "frag list"

record world =
  sent :: "(request \<times> outcome) list"
  fs :: "string list \<Rightarrow> node option"
  logged :: "log_record list"

definition logger :: "log_record \<Rightarrow> world \<Rightarrow> world" where
  "logger r w = w\<lparr>logged := logged w @ [r]\<rparr>"

definition requests_get :: "env \<Rightarrow> request \<Rightarrow> world \<Rightarrow> outcome \<times> world" where
  "requests_get e r w =
     (let out = net e (sent w) r in (out, w\<lparr>sent := sent w @ [(r, out)]\<rparr>))"

text \<open>
  \<^verbatim>\<open>requests.get(u)\<close> with \<open>u\<close> a JSON value. The library takes \<^verbatim>\<open>str(u)\<close>, strips the
  white space at its start and sends the request only over a connection adapter,
  which it has for the prefixes \<^verbatim>\<open>http://\<close> and \<^verbatim>\<open>https://\<close>, compared in lower case.
  For every other URL it raises (MissingSchema, InvalidSchema, InvalidURL) before it
  sends anything; no JSON value but a string prints with such a prefix. What the
  library finds wrong with a URL that has the prefix (no host) is an outcome \<open>Raised\<close>
  of the network.
\<close>

definition py_space :: "char \<Rightarrow> bool" where
  "py_space c =
     (let n = (of_char c :: nat) in (9 \<le> n \<and> n \<le> 13) \<or> (28 \<le> n \<and> n \<le> 32) \<or> n = 133 \<or> n = 160)"

definition ascii_lower :: "char \<Rightarrow> char" where
  "ascii_lower c =
     (let n = (of_char c :: nat) in if 65 \<le> n \<and> n \<le> 90 then char_of (n + 32) else c)"

definition http_url :: "string \<Rightarrow> bool" where
  "http_url u =
     (let s = map ascii_lower (dropWhile py_space u)
      in take 7 s = ''http://'' \<or> take 8 s = ''https://'')"

fun requests_get_url :: "env \<Rightarrow> json \<Rightarrow> world \<Rightarrow> outcome \<times> world" where
  "requests_get_url e (JStr u) w =
     (if http_url u then requests_get e \<lparr>req_url = u, req_headers = [], req_params = []\<rparr> w
      else (Raised (url_refusal e (JStr u)), w))"
| "requests_get_url e u w = (Raised (url_refusal e u), w)"

text \<open>\<^verbatim>\<open>os.path.join\<close> of \<^verbatim>\<open>posixpath\<close>, one component at a time.\<close>

definition join2 :: "string \<Rightarrow> string \<Rightarrow> string" where
  "join2 path b =
     (if take 1 b = ''/'' then b
      else if path = [] \<or> last path = CHR ''/'' then path @ b
      else path @ ''/'' @ b)"

definition os_path_join :: "string \<Rightarrow> string list \<Rightarrow> string" where
  "os_path_join a p = foldl join2 a p"

text \<open>
  \<^verbatim>\<open>os.path.split\<close> of \<^verbatim>\<open>posixpath\<close>: the tail is what follows the last slash, the head
  what stands before it, without its trailing slashes unless it consists of slashes.
\<close>

definition path_split :: "string \<Rightarrow> string \<times> string" where
  "path_split p =
     (let tail = rev (takeWhile (\<lambda>c. c \<noteq> CHR ''/'') (rev p));
          head = take (length p - length tail) p
      in (if list_all (\<lambda>c. c = CHR ''/'') head then head
          else rev (dropWhile (\<lambda>c. c = CHR ''/'') (rev head)),
          tail))"

text \<open>
  How the operating system reads a path: a relative path starts in a base directory
  (the working directory of the process), and empty components and \<^verbatim>\<open>.\<close> name no
  step.
\<close>

definition components :: "string \<Rightarrow> string list" where
  "components path = filter (\<lambda>c. c \<noteq> [] \<and> c \<noteq> ''.'') (split_on (CHR ''/'') path)"

definition resolve :: "string \<Rightarrow> string \<Rightarrow> string list" where
  "resolve base path = components (join2 base path)"

definition node_at :: "world \<Rightarrow> string list \<Rightarrow> node option" where
  "node_at w key = (if key = [] then Some Dir else fs w key)"

text \<open>
  \<^verbatim>\<open>os.path.exists\<close> and \<^verbatim>\<open>os.path.isdir\<close>: false for the empty path and for a path with
  a NUL character.
\<close>

definition os_path_exists :: "env \<Rightarrow> world \<Rightarrow> string \<Rightarrow> bool" where
  "os_path_exists e w path =
     (path \<noteq> [] \<and> CHR 0x00 \<notin> set path \<and> node_at w (resolve (cwd e) path) \<noteq> None)"

definition os_path_isdir :: "env \<Rightarrow> world \<Rightarrow> string \<Rightarrow> bool" where
  "os_path_isdir e w path =
     (path \<noteq> [] \<and> CHR 0x00 \<notin> set path \<and> node_at w (resolve (cwd e) path) = Some Dir)"

text \<open>
  \<^verbatim>\<open>os.mkdir\<close>: the directory above has to be there, and nothing at the path itself.
\<close>

definition os_mkdir :: "env \<Rightarrow> string \<Rightarrow> world \<Rightarrow> exn + world" where
  "os_mkdir e name w =
     (if CHR 0x00 \<in> set name then Inl (ValueError [Lit ''embedded null byte''])
      else if name = [] then Inl (FileNotFoundError name)
      else if node_at w (resolve (cwd e) name) \<noteq> None then Inl (FileExistsError name)
      else case node_at w (butlast (resolve (cwd e) name)) of
        None \<Rightarrow> Inl (FileNotFoundError name)
      | Some (File b) \<Rightarrow> Inl (NotADirectoryError name)
      | Some Dir \<Rightarrow>
          if os_refuses e name then Inl (OSError name)
          else Inr (w\<lparr>fs := (fs w)(resolve (cwd e) name \<mapsto> Dir)\<rparr>))"

text \<open>
  \<^verbatim>\<open>os.makedirs(name, exist_ok=True)\<close> as the standard library has it. The name is
  split into head and tail (once more when the tail is empty); when the head does not
  exist it is made first, by the same function, and a \<^verbatim>\<open>FileExistsError\<close> of that call
  is passed over; then, unless the tail is \<^verbatim>\<open>.\<close> after such a call, the directory
  itself is made, and an \<^verbatim>\<open>OSError\<close> of \<^verbatim>\<open>mkdir\<close> is passed over when the name is a
  directory. The result is the exception raised, if any, and the world, with the
  directories made until then.
\<close>

definition split_name :: "string \<Rightarrow> string \<times> string" where
  "split_name name =
     (case path_split name of
        (head, tail) \<Rightarrow> if tail = [] then path_split head else (head, tail))"

fun is_os_error :: "exn \<Rightarrow> bool" where
  "is_os_error (FileExistsError p) = True"
| "is_os_error (FileNotFoundError p) = True"
| "is_os_error (NotADirectoryError p) = True"
| "is_os_error (IsADirectoryError p) = True"
| "is_os_error (OSError p) = True"
| "is_os_error ex = False"

fun is_file_exists_error :: "exn \<Rightarrow> bool" where
  "is_file_exists_error (FileExistsError p) = True"
| "is_file_exists_error ex = False"

definition make_leaf :: "env \<Rightarrow> string \<Rightarrow> world \<Rightarrow> exn option \<times> world" where
  "make_leaf e name w =
     (case os_mkdir e name w of
        Inr w1 \<Rightarrow> (None, w1)
      | Inl ex \<Rightarrow> if is_os_error ex \<and> os_path_isdir e w name then (None, w) else (Some ex, w))"

function os_makedirs :: "env \<Rightarrow> string \<Rightarrow> world \<Rightarrow> exn option \<times> world" where
  "os_makedirs e name w =
     (if fst (split_name name) \<noteq> [] \<and> snd (split_name name) \<noteq> []
         \<and> \<not> os_path_exists e w (fst (split_name name))
      then
        (case os_makedirs e (fst (split_name name)) w of
           (Some ex, w1) \<Rightarrow>
             if is_file_exists_error ex then
               (if snd (split_name name) = ''.'' then (None, w1) else make_leaf e name w1)
             else (Some ex, w1)
         | (None, w1) \<Rightarrow>
             if snd (split_name name) = ''.'' then (None, w1) else make_leaf e name w1)
      else make_leaf e name w)"
  by pat_completeness auto

termination os_makedirs
proof (relation "measure (\<lambda>(e, name, w). length name)")
  show "wf (measure (\<lambda>(e, name, w). length name))" by simp
next
  fix e :: env and name :: string and w :: world
  assume a: "fst (split_name name) \<noteq> [] \<and> snd (split_name name) \<noteq> []
      \<and> \<not> os_path_exists e w (fst (split_name name))"
  have l: "length (fst (path_split p)) + length (snd (path_split p)) \<le> length p" for p
  proof -
    define t where "t = rev (takeWhile (\<lambda>c. c \<noteq> CHR ''/'') (rev p))"
    define h where "h = take (length p - length t) p"
    have t: "length t \<le> length p"
      unfolding t_def using length_takeWhile_le[of "\<lambda>c. c \<noteq> CHR ''/''" "rev p"] by simp
    have h: "length h = length p - length t" unfolding h_def by simp
    have d: "length (rev (dropWhile (\<lambda>c. c = CHR ''/'') (rev h))) \<le> length h"
      using length_dropWhile_le[of "\<lambda>c. c = CHR ''/''" "rev h"] by simp
    have s: "path_split p
        = (if list_all (\<lambda>c. c = CHR ''/'') h then h
           else rev (dropWhile (\<lambda>c. c = CHR ''/'') (rev h)), t)"
      unfolding path_split_def Let_def t_def h_def by simp
    show ?thesis
    proof (cases "list_all (\<lambda>c. c = CHR ''/'') h")
      case True
      then show ?thesis unfolding s using t h by simp
    next
      case False
      then show ?thesis unfolding s using t h d by simp
    qed
  qed
  have "length (fst (split_name name)) < length name"
  proof (cases "snd (path_split name) = []")
    case True
    then have s: "split_name name = path_split (fst (path_split name))"
      by (cases "path_split name") (simp add: split_name_def)
    have "length (fst (split_name name)) + length (snd (split_name name))
        \<le> length (fst (path_split name))"
      unfolding s by (rule l)
    moreover have "length (fst (path_split name)) \<le> length name"
      using l[of name] by simp
    moreover have "0 < length (snd (split_name name))" using a by simp
    ultimately show ?thesis by linarith
  next
    case False
    then have s: "split_name name = path_split name"
      by (cases "path_split name") (simp add: split_name_def)
    have "0 < length (snd (path_split name))" using False by simp
    then show ?thesis unfolding s using l[of name] by linarith
  qed
  then show "((e, fst (split_name name), w), (e, name, w)) \<in> measure (\<lambda>(e, name, w). length name)"
    by simp
qed

declare os_makedirs.simps [simp del]

text \<open>
  \<^verbatim>\<open>open(path, 'wb')\<close> with one \<^verbatim>\<open>write\<close>: the directory of the file has to be there;
  the bytes written are the bytes of the file afterwards, whatever it held before. A
  write that fails after the file has been opened is not represented.
\<close>

definition write_file :: "env \<Rightarrow> string \<Rightarrow> string \<Rightarrow> world \<Rightarrow> exn + world" where
  "write_file e path bytes w =
     (if CHR 0x00 \<in> set path then Inl (ValueError [Lit ''embedded null byte''])
      else if path = [] then Inl (FileNotFoundError path)
      else case node_at w (butlast (resolve (cwd e) path)) of
        None \<Rightarrow> Inl (FileNotFoundError path)
      | Some (File b) \<Rightarrow> Inl (NotADirectoryError path)
      | Some Dir \<Rightarrow>
          if node_at w (resolve (cwd e) path) = Some Dir then Inl (IsADirectoryError path)
          else if os_refuses e path then Inl (OSError path)
          else Inr (w\<lparr>fs := (fs w)(resolve (cwd e) path \<mapsto> File bytes)\<rparr>))"

section \<open>Fetching the document\<close>

text \<open>
  The handler of \<^verbatim>\<open>fetch_figma_file\<close> for \<^verbatim>\<open>requests.RequestException\<close>: it logs
  and raises a plain \<^verbatim>\<open>Exception\<close> with the same message.
\<close>

definition network_error :: "exn \<Rightarrow> world \<Rightarrow> (exn + json) \<times> world" where
  "network_error ex w =
     (Inl (Exception [Lit ''Network error: '', StrExn ex]),
      logger (LogError [Lit ''Network error: '', StrExn ex]) w)"

definition files_request :: "env \<Rightarrow> string \<Rightarrow> request" where
  "files_request e file_key =
     \<lparr>req_url = BASE_URL e @ ''/files/'' @ file_key,
      req_headers = [(''X-Figma-Token'', FIGMA_API_TOKEN e)],
      req_params = []\<rparr>"

definition fetch_figma_file :: "env \<Rightarrow> string \<Rightarrow> world \<Rightarrow> (exn + json) \<times> world" where
  "fetch_figma_file e file_key w =
     (case requests_get e (files_request e file_key) w of
        (Raised m, w1) \<Rightarrow> network_error (RequestException m) w1
      | (Response r, w1) \<Rightarrow>
          if status_code r = 403 then
            (Inl (Exception [Lit ''403 Forbidden: '', Lit (resp_text r)]),
             logger (LogError [Lit ''403 Forbidden: '', Lit (resp_text r)]) w1)
          else if status_code r \<noteq> 200 then
            (Inl (Exception [Lit ''Figma API error (Status '', StrInt (status_code r),
                             Lit ''): '', Lit (resp_text r)]),
             logger (LogError [Lit ''Figma API error (Status '', StrInt (status_code r),
                               Lit ''): '', Lit (resp_text r)]) w1)
          else
            (case json_body r of
               Inl m \<Rightarrow> network_error (RequestException m) w1
             | Inr file_data \<Rightarrow> (Inr file_data, w1)))"

section \<open>Rendering in batches\<close>

text \<open>
  A Python dictionary whose keys are hashable JSON values: a finite map. Keys that
  Python holds equal are one key (\<^verbatim>\<open>True == 1 == 1.0\<close>); a list or a dictionary is not
  hashable.
\<close>

type_synonym pydict = "json \<Rightarrow> json option"

fun hash_key :: "json \<Rightarrow> json option" where
  "hash_key (JArr xs) = None"
| "hash_key (JObj kvs) = None"
| "hash_key (JBool b) = Some (JInt (if b then 1 else 0))"
| "hash_key (JFloat r) = Some (if of_int \<lfloor>r\<rfloor> = r then JInt \<lfloor>r\<rfloor> else JFloat r)"
| "hash_key k = Some k"

text \<open>The dictionary a JSON object parses to.\<close>

definition dict_of :: "(string \<times> json) list \<Rightarrow> pydict" where
  "dict_of kvs = (\<lambda>k. case k of JStr s \<Rightarrow> map_of kvs s | _ \<Rightarrow> None)"

text \<open>
  \<^verbatim>\<open>d.update(v)\<close>. A dictionary is merged in, its items winning; any other iterable is
  read as a sequence of key/value pairs, each an iterable of exactly two items.
\<close>

fun update_pairs :: "pydict \<Rightarrow> json list \<Rightarrow> exn + pydict" where
  "update_pairs d [] = Inr d"
| "update_pairs d (item # items) =
     (case py_iter item of
        Inl ex \<Rightarrow> Inl TypeError
      | Inr [k, v] \<Rightarrow>
          (case hash_key k of
             None \<Rightarrow> Inl TypeError
           | Some hk \<Rightarrow> update_pairs (d(hk \<mapsto> v)) items)
      | Inr _ \<Rightarrow> Inl (ValueError [Lit ''dictionary update sequence element has the wrong length'']))"

fun dict_update :: "pydict \<Rightarrow> json \<Rightarrow> exn + pydict" where
  "dict_update d (JObj kvs) = Inr (d ++ dict_of kvs)"
| "dict_update d v =
     (case py_iter v of
        Inl ex \<Rightarrow> Inl ex
      | Inr items \<Rightarrow> update_pairs d items)"

text \<open>\<^verbatim>\<open>sep.join(xs)\<close>: every item has to be a string.\<close>

fun join_strs :: "string \<Rightarrow> string list \<Rightarrow> string" where
  "join_strs sep [] = []"
| "join_strs sep [s] = s"
| "join_strs sep (s # t # ss) = s @ sep @ join_strs sep (t # ss)"

fun str_of :: "json \<Rightarrow> string option" where
  "str_of (JStr s) = Some s"
| "str_of _ = None"

definition py_join :: "string \<Rightarrow> json list \<Rightarrow> exn + string" where
  "py_join sep xs =
     (if list_all (\<lambda>x. str_of x \<noteq> None) xs then Inr (join_strs sep (map (\<lambda>x. the (str_of x)) xs))
      else Inl TypeError)"

text \<open>\<^verbatim>\<open>range(0, stop, step)\<close> for a positive step.\<close>

definition py_range :: "nat \<Rightarrow> nat \<Rightarrow> nat list" where
  "py_range stop step = map (\<lambda>k. k * step) [0 ..< (stop + step - 1) div step]"

definition max_ids_per_request :: nat where
  "max_ids_per_request = 100"

text \<open>The request of one batch, and the body of the loop of \<^verbatim>\<open>fetch_figma_frame_images\<close>.\<close>

definition images_request :: "env \<Rightarrow> string \<Rightarrow> json \<Rightarrow> json \<Rightarrow> string \<Rightarrow> request" where
  "images_request e file_key scale format ids =
     \<lparr>req_url = BASE_URL e @ ''/images/'' @ file_key,
      req_headers = [(''X-Figma-Token'', FIGMA_API_TOKEN e)],
      req_params = [(''ids'', JStr ids), (''scale'', scale), (''format'', format),
                    (''use_absolute_bounds'', JStr ''true'')]\<rparr>"

definition merge_images :: "pydict \<Rightarrow> outcome \<Rightarrow> exn + pydict" where
  "merge_images image_urls out =
     (case out of
        Raised m \<Rightarrow> Inl (Exception [Lit ''Network error: '', StrExn (RequestException m)])
      | Response r \<Rightarrow>
          if status_code r = 403 then
            Inl (Exception [Lit ''Access denied: Check token permissions''])
          else if status_code r \<noteq> 200 then
            Inl (Exception [Lit ''Figma API error: '', Lit (resp_text r)])
          else
            (case json_body r of
               Inl m \<Rightarrow> Inl (Exception [Lit ''Network error: '', StrExn (RequestException m)])
             | Inr data \<Rightarrow>
                 (case py_get data ''err'' JNull of
                    Inl ex \<Rightarrow> Inl ex
                  | Inr err \<Rightarrow>
                      if truthy err then
                        Inl (Exception [Lit ''Image rendering error: '', StrJson err])
                      else
                        (case py_get data ''images'' (JObj []) of
                           Inl ex \<Rightarrow> Inl ex
                         | Inr images \<Rightarrow> dict_update image_urls images))))"

definition fetch_batch ::
  "env \<Rightarrow> string \<Rightarrow> json \<Rightarrow> json \<Rightarrow> json list \<Rightarrow> pydict \<Rightarrow> world \<Rightarrow> (exn + pydict) \<times> world" where
  "fetch_batch e file_key scale format batch_ids image_urls w =
     (case py_join '','' batch_ids of
        Inl ex \<Rightarrow> (Inl ex, w)
      | Inr ids \<Rightarrow>
          (case requests_get e (images_request e file_key scale format ids) w of
             (out, w1) \<Rightarrow> (merge_images image_urls out, w1)))"

fun fetch_batches ::
  "env \<Rightarrow> string \<Rightarrow> json \<Rightarrow> json \<Rightarrow> json list \<Rightarrow> nat list \<Rightarrow> pydict \<Rightarrow> world
     \<Rightarrow> (exn + pydict) \<times> world" where
  "fetch_batches e file_key scale format frame_ids [] image_urls w = (Inr image_urls, w)"
| "fetch_batches e file_key scale format frame_ids (i # is) image_urls w =
     (case fetch_batch e file_key scale format
             (take max_ids_per_request (drop i frame_ids)) image_urls w of
        (Inl ex, w1) \<Rightarrow> (Inl ex, w1)
      | (Inr image_urls1, w1) \<Rightarrow>
          fetch_batches e file_key scale format frame_ids is image_urls1 w1)"

definition fetch_figma_frame_images ::
  "env \<Rightarrow> string \<Rightarrow> json list \<Rightarrow> json \<Rightarrow> json \<Rightarrow> world \<Rightarrow> (exn + pydict) \<times> world" where
  "fetch_figma_frame_images e file_key frame_ids scale format w =
     fetch_batches e file_key scale format frame_ids
       (py_range (length frame_ids) max_ids_per_request) Map.empty w"

section \<open>Extracting the frames\<close>

text \<open>
  The dictionary \<^verbatim>\<open>frame_data\<close>: its keys are fixed, and \<^verbatim>\<open>image_url\<close> is there once
  the process operation has set it.
\<close>

record frame =
  name :: json
  node_id :: json
  type :: string
  image_url :: "json option"

text \<open>
  The inner loop of \<^verbatim>\<open>extract_frames\<close> over the children of one page, and the outer
  loop over the pages; \<open>(frames, frame_ids)\<close> are the two lists the loops append to.
  A child that is not a dictionary has no \<^verbatim>\<open>get\<close>: an AttributeError at the first
  call.
\<close>

fun extract_children ::
  "json list \<Rightarrow> frame list \<times> json list \<Rightarrow> exn + frame list \<times> json list" where
  "extract_children [] acc = Inr acc"
| "extract_children (JObj kvs # children) (frames, frame_ids) =
     (if map_of kvs ''type'' \<noteq> Some (JStr ''FRAME'') then
        extract_children children (frames, frame_ids)
      else
        extract_children children
          (frames @ [\<lparr>name = (case map_of kvs ''name'' of Some n \<Rightarrow> n | None \<Rightarrow> JStr ''Unnamed Frame''),
                      node_id = (case map_of kvs ''id'' of Some i \<Rightarrow> i | None \<Rightarrow> JStr ''''),
                      type = ''FRAME'', image_url = None\<rparr>],
           case map_of kvs ''id'' of
             Some i \<Rightarrow> if truthy i then frame_ids @ [i] else frame_ids
           | None \<Rightarrow> frame_ids))"
| "extract_children (child # children) (frames, frame_ids) = Inl AttributeError"

fun extract_pages ::
  "json list \<Rightarrow> frame list \<times> json list \<Rightarrow> exn + frame list \<times> json list" where
  "extract_pages [] acc = Inr acc"
| "extract_pages (page # pages) acc =
     (case py_get page ''children'' (JArr []) of
        Inl ex \<Rightarrow> Inl ex
      | Inr cs \<Rightarrow>
          (case py_iter cs of
             Inl ex \<Rightarrow> Inl ex
           | Inr children \<Rightarrow>
               (case extract_children children acc of
                  Inl ex \<Rightarrow> Inl ex
                | Inr acc1 \<Rightarrow> extract_pages pages acc1)))"

definition extract_frames :: "json \<Rightarrow> exn + frame list \<times> json list" where
  "extract_frames file_data =
     (case py_get file_data ''document'' (JObj []) of
        Inl ex \<Rightarrow> Inl ex
      | Inr document \<Rightarrow>
          (case py_get document ''children'' (JArr []) of
             Inl ex \<Rightarrow> Inl ex
           | Inr ps \<Rightarrow>
               (case py_iter ps of
                  Inl ex \<Rightarrow> Inl ex
                | Inr pages \<Rightarrow> extract_pages pages ([], []))))"

section \<open>Downloading the images\<close>

text \<open>
  The body of the loop of \<^verbatim>\<open>download_images\<close> for one frame: the new item of
  \<^verbatim>\<open>image_paths\<close>, if the frame got one, and the world after it. Everything raised
  once \<^verbatim>\<open>requests.get\<close> is called is caught and logged, and the loop goes on;
  \<^verbatim>\<open>re.sub\<close> on a node identifier that is not a string is such a TypeError.
\<close>

definition quote :: string where
  "quote = [CHR 0x27]"

definition download_failed :: "frame \<Rightarrow> exn \<Rightarrow> log_record" where
  "download_failed f ex =
     LogError [Lit (''Error downloading image for frame '' @ quote), StrJson (name f),
               Lit (quote @ '': ''), StrExn ex]"

definition download_frame ::
  "env \<Rightarrow> string \<Rightarrow> frame \<Rightarrow> world \<Rightarrow> (json \<times> string) option \<times> world" where
  "download_frame e session_folder f w =
     (case image_url f of
        None \<Rightarrow> (None, w)
      | Some u \<Rightarrow>
          (case requests_get_url e u w of
             (Raised m, w1) \<Rightarrow> (None, logger (download_failed f (RequestException m)) w1)
           | (Response r, w1) \<Rightarrow>
               if status_code r \<noteq> 200 then
                 (None, logger (LogWarning [Lit (''Failed to download image for frame '' @ quote),
                                            StrJson (name f), Lit (quote @ '': HTTP ''),
                                            StrInt (status_code r)]) w1)
               else
                 (case re_sub_unsafe (node_id f) of
                    Inl ex \<Rightarrow> (None, logger (download_failed f ex) w1)
                  | Inr safe_node_id \<Rightarrow>
                      (let filename = os_path_join session_folder [safe_node_id @ ''.png'']
                       in case write_file e filename (resp_content r) w1 of
                            Inl ex \<Rightarrow> (None, logger (download_failed f ex) w1)
                          | Inr w2 \<Rightarrow>
                              (Some (node_id f, filename),
                               logger (LogDebug [Lit (''Downloaded image for frame '' @ quote),
                                                 StrJson (name f), Lit (quote @ '' to ''),
                                                 Lit filename]) w2)))))"

text \<open>
  \<^verbatim>\<open>image_paths\<close> is a dictionary from node identifiers to file names; a key it gets is
  a string, since \<^verbatim>\<open>re.sub\<close> has accepted it.
\<close>

fun download_loop ::
  "env \<Rightarrow> string \<Rightarrow> frame list \<Rightarrow> (json \<Rightarrow> string option) \<Rightarrow> world
     \<Rightarrow> (json \<Rightarrow> string option) \<times> world" where
  "download_loop e session_folder [] image_paths w = (image_paths, w)"
| "download_loop e session_folder (f # frames) image_paths w =
     (case download_frame e session_folder f w of
        (None, w1) \<Rightarrow> download_loop e session_folder frames image_paths w1
      | (Some (nid, filename), w1) \<Rightarrow>
          download_loop e session_folder frames (image_paths(nid \<mapsto> filename)) w1)"

text \<open>
  \<^verbatim>\<open>download_images\<close>: the two directories are made before the loop, outside every
  \<^verbatim>\<open>try\<close>; \<^verbatim>\<open>os.path.join\<close> with a session identifier that is not a string is a
  TypeError.
\<close>

definition download_images ::
  "env \<Rightarrow> frame list \<Rightarrow> json \<Rightarrow> world
     \<Rightarrow> (exn + (json \<Rightarrow> string option) \<times> string) \<times> world" where
  "download_images e frames session_id w =
     (let frame_folder = os_path_join (UPLOAD_FOLDER e) [''frames'']
      in case os_makedirs e frame_folder w of
           (Some ex, w1) \<Rightarrow> (Inl ex, w1)
         | (None, w1) \<Rightarrow>
             (case session_id of
                JStr sid \<Rightarrow>
                  (let session_folder = os_path_join frame_folder [sid]
                   in case os_makedirs e session_folder w1 of
                        (Some ex, w2) \<Rightarrow> (Inl ex, w2)
                      | (None, w2) \<Rightarrow>
                          (case download_loop e session_folder frames Map.empty w2 of
                             (image_paths, w3) \<Rightarrow> (Inr (image_paths, session_folder), w3)))
              | _ \<Rightarrow> (Inl TypeError, w1)))"

section \<open>The two endpoints\<close>

text \<open>
  What Flask sends back: the JSON of \<^verbatim>\<open>jsonify\<close> with status 200, the error page of
  \<^verbatim>\<open>abort(code, description)\<close>, the file of \<^verbatim>\<open>send_file\<close> (its path, bytes and MIME
  type), status 500 for an exception that leaves the view, or the answer of the URL
  map on its own when no rule matches the path: then no view is called (the answer is
  status 404, or a redirect for a path with doubled slashes).
\<close>

datatype http_response =
    Jsonify json
  | Aborted nat "frag list"
  | SendFile string string string
  | Unhandled exn
  | NotRouted

text \<open>\<^verbatim>\<open>key in data\<close> and \<^verbatim>\<open>data[key]\<close> for a string key and a JSON value.\<close>

fun is_substring :: "string \<Rightarrow> string \<Rightarrow> bool" where
  "is_substring k [] = (k = [])"
| "is_substring k (c # cs) = (take (length k) (c # cs) = k \<or> is_substring k cs)"

fun py_in :: "string \<Rightarrow> json \<Rightarrow> exn + bool" where
  "py_in k (JObj kvs) = Inr (map_of kvs k \<noteq> None)"
| "py_in k (JArr xs) = Inr (JStr k \<in> set xs)"
| "py_in k (JStr s) = Inr (is_substring k s)"
| "py_in k _ = Inl TypeError"

fun py_getitem :: "json \<Rightarrow> string \<Rightarrow> exn + json" where
  "py_getitem (JObj kvs) k = (case map_of kvs k of Some v \<Rightarrow> Inr v | None \<Rightarrow> Inl (KeyError k))"
| "py_getitem _ k = Inl TypeError"

text \<open>
  The condition \<^verbatim>\<open>not data or 'figma_url' not in data or 'session_id' not in data\<close>,
  evaluated from left to right.
\<close>

definition missing_fields :: "json \<Rightarrow> exn + bool" where
  "missing_fields data =
     (if \<not> truthy data then Inr True
      else case py_in ''figma_url'' data of
             Inl ex \<Rightarrow> Inl ex
           | Inr False \<Rightarrow> Inr True
           | Inr True \<Rightarrow>
               (case py_in ''session_id'' data of
                  Inl ex \<Rightarrow> Inl ex
                | Inr b \<Rightarrow> Inr (\<not> b)))"

text \<open>
  The loop that sets \<^verbatim>\<open>frame['image_url'] = image_urls.get(frame['node_id'], '')\<close>; a
  node identifier that is not hashable is a TypeError.
\<close>

fun set_image_urls :: "pydict \<Rightarrow> frame list \<Rightarrow> exn + frame list" where
  "set_image_urls image_urls [] = Inr []"
| "set_image_urls image_urls (f # frames) =
     (case hash_key (node_id f) of
        None \<Rightarrow> Inl TypeError
      | Some k \<Rightarrow>
          (case set_image_urls image_urls frames of
             Inl ex \<Rightarrow> Inl ex
           | Inr frames1 \<Rightarrow>
               Inr (f\<lparr>image_url := Some (case image_urls k of Some u \<Rightarrow> u | None \<Rightarrow> JStr '''')\<rparr>
                    # frames1)))"

text \<open>\<^verbatim>\<open>frame.get('image_url')\<close> as a condition.\<close>

definition has_image_url :: "frame \<Rightarrow> bool" where
  "has_image_url f = (case image_url f of Some u \<Rightarrow> truthy u | None \<Rightarrow> False)"

text \<open>The list comprehension that builds \<^verbatim>\<open>images\<close>.\<close>

definition image_entry :: "frame \<Rightarrow> string \<Rightarrow> json" where
  "image_entry f path = JObj [(''name'', name f), (''node_id'', node_id f), (''path'', JStr path)]"

fun result_images :: "(json \<Rightarrow> string option) \<Rightarrow> frame list \<Rightarrow> exn + json list" where
  "result_images image_paths [] = Inr []"
| "result_images image_paths (f # frames) =
     (case hash_key (node_id f) of
        None \<Rightarrow> Inl TypeError
      | Some k \<Rightarrow>
          (case result_images image_paths frames of
             Inl ex \<Rightarrow> Inl ex
           | Inr images \<Rightarrow>
               (case image_paths k of
                  None \<Rightarrow> Inr images
                | Some path \<Rightarrow> Inr (image_entry f path # images))))"

text \<open>
  The body of the \<^verbatim>\<open>try\<close> of \<^verbatim>\<open>process_figma\<close>. \<open>body\<close> is what
  \<^verbatim>\<open>request.get_json()\<close> does: it returns the parsed body (\<open>JNull\<close> for \<^verbatim>\<open>None\<close>) or
  raises. \<^verbatim>\<open>abort\<close> raises an HTTPException.
\<close>

definition process_steps ::
  "env \<Rightarrow> json \<Rightarrow> json \<Rightarrow> world \<Rightarrow> (exn + json) \<times> world" where
  "process_steps e figma_url session_id w =
     (case extract_file_key figma_url of
        Inl ex \<Rightarrow> (Inl ex, w)
      | Inr file_key \<Rightarrow>
          (case fetch_figma_file e file_key w of
             (Inl ex, w1) \<Rightarrow> (Inl ex, w1)
           | (Inr file_data, w1) \<Rightarrow>
               (case extract_frames file_data of
                  Inl ex \<Rightarrow> (Inl ex, w1)
                | Inr (frames0, frame_ids) \<Rightarrow>
                    (case fetch_figma_frame_images e file_key frame_ids (JInt 1) (JStr ''png'') w1 of
                       (Inl ex, w2) \<Rightarrow> (Inl ex, w2)
                     | (Inr image_urls, w2) \<Rightarrow>
                         (case set_image_urls image_urls frames0 of
                            Inl ex \<Rightarrow> (Inl ex, w2)
                          | Inr frames \<Rightarrow>
                              (let total_frames = length (filter has_image_url frames)
                               in case download_images e frames session_id w2 of
                                    (Inl ex, w3) \<Rightarrow> (Inl ex, w3)
                                  | (Inr (image_paths, session_folder), w3) \<Rightarrow>
                                      (case result_images image_paths frames of
                                         Inl ex \<Rightarrow> (Inl ex, w3)
                                       | Inr images \<Rightarrow>
                                           (Inr (JObj [(''total_frames'', JInt (int total_frames)),
                                                       (''images'', JArr images),
                                                       (''session_folder'', JStr session_folder)]),
                                            w3))))))))"

definition process_try :: "env \<Rightarrow> exn + json \<Rightarrow> world \<Rightarrow> (exn + json) \<times> world" where
  "process_try e body w =
     (case body of
        Inl ex \<Rightarrow> (Inl ex, w)
      | Inr data \<Rightarrow>
          (case missing_fields data of
             Inl ex \<Rightarrow> (Inl ex, w)
           | Inr True \<Rightarrow> (Inl (HTTPException 400 [Lit ''Missing figma_url or session_id'']), w)
           | Inr False \<Rightarrow>
               (case (py_getitem data ''figma_url'', py_getitem data ''session_id'') of
                  (Inl ex, _) \<Rightarrow> (Inl ex, w)
                | (Inr figma_url, Inl ex) \<Rightarrow> (Inl ex, w)
                | (Inr figma_url, Inr session_id) \<Rightarrow> process_steps e figma_url session_id w)))"

text \<open>
  \<^verbatim>\<open>process_figma\<close>: the \<^verbatim>\<open>try\<close> and its handler \<^verbatim>\<open>except Exception as e\<close>, which logs
  and calls \<^verbatim>\<open>abort(500, description=str(e))\<close> for whatever the body raised.
\<close>

definition process_figma :: "env \<Rightarrow> exn + json \<Rightarrow> world \<Rightarrow> http_response \<times> world" where
  "process_figma e body w =
     (case process_try e body w of
        (Inr result, w1) \<Rightarrow>
          (Jsonify (JObj [(''status'', JStr ''success''), (''result'', result)]), w1)
      | (Inl ex, w1) \<Rightarrow>
          (Aborted 500 [StrExn ex],
           logger (LogError [Lit ''Error processing Figma URL: '', StrExn ex]) w1))"

text \<open>
  \<^verbatim>\<open>send_file\<close> of Flask: a relative path is taken from the \<^verbatim>\<open>root_path\<close> of the
  application, not from the working directory; the file is opened for reading.
\<close>

definition send_file :: "env \<Rightarrow> world \<Rightarrow> string \<Rightarrow> string \<Rightarrow> http_response" where
  "send_file e w path mimetype =
     (if CHR 0x00 \<in> set path then Unhandled (ValueError [Lit ''embedded null byte''])
      else case node_at w (resolve (root_path e) path) of
        Some (File bytes) \<Rightarrow> SendFile path bytes mimetype
      | Some Dir \<Rightarrow> Unhandled (IsADirectoryError path)
      | None \<Rightarrow> Unhandled (FileNotFoundError path))"

text \<open>The view \<^verbatim>\<open>get_image\<close>.\<close>

definition get_image :: "env \<Rightarrow> string \<Rightarrow> string \<Rightarrow> world \<Rightarrow> http_response" where
  "get_image e sid nid w =
     (let safe_node_id = sanitize nid;
          image_path = os_path_join (UPLOAD_FOLDER e) [''frames'', sid, safe_node_id @ ''.png'']
      in if \<not> os_path_exists e w image_path then Aborted 404 [Lit ''Image not found'']
         else send_file e w image_path ''image/png'')"

text \<open>
  The rule \<^verbatim>\<open>/images/<session_id>/<node_id>\<close> for \<^verbatim>\<open>GET\<close>: a variable of the default
  converter matches one segment of the path, not empty and without a slash. A path
  that the rule matches reaches the view with the two segments.
\<close>

definition images_rule :: "string \<Rightarrow> (string \<times> string) option" where
  "images_rule path =
     (case strip_prefix ''/images/'' path of
        None \<Rightarrow> None
      | Some rest \<Rightarrow>
          (case split_on (CHR ''/'') rest of
             [sid, nid] \<Rightarrow> if sid \<noteq> [] \<and> nid \<noteq> [] then Some (sid, nid) else None
           | _ \<Rightarrow> None))"

definition images_route :: "env \<Rightarrow> string \<Rightarrow> world \<Rightarrow> http_response" where
  "images_route e path w =
     (case images_rule path of
        Some (sid, nid) \<Rightarrow> get_image e sid nid w
      | None \<Rightarrow> NotRouted)"

section \<open>Predicates of the specification\<close>

text \<open>
  The shape of a URL as the specification words it: somewhere in the URL, after \<open>pre\<close>,
  stands \<^verbatim>\<open>figma.com/\<close>, one of the alternatives, a slash and the identifier \<open>X\<close>, a
  non-empty run of identifier characters that \<open>post\<close> does not continue.
\<close>

definition spec_shape :: "string list \<Rightarrow> string \<Rightarrow> string \<Rightarrow> string \<Rightarrow> string \<Rightarrow> bool" where
  "spec_shape alts pre X post u =
     (\<exists>a \<in> set alts. u = pre @ ''figma.com/'' @ a @ ''/'' @ X @ post
        \<and> X \<noteq> [] \<and> list_all id_char X \<and> (post = [] \<or> \<not> id_char (hd post)))"


text \<open>
  The frames of a document as the specification words them: the children of the
  pages, in page-then-child order, whose kind tag is \<^verbatim>\<open>FRAME\<close>, each with its name
  (default \<^verbatim>\<open>Unnamed Frame\<close>) and identifier (default empty). A tree is well shaped
  when the root, the document node, the pages and their children are objects and each
  \<^verbatim>\<open>children\<close> field, where present, is a list field: an array, or an empty object or
  an empty string, over which a loop makes no step.
\<close>

definition obj_get :: "json \<Rightarrow> string \<Rightarrow> json \<Rightarrow> json" where
  "obj_get j k d =
     (case j of JObj kvs \<Rightarrow> (case map_of kvs k of Some v \<Rightarrow> v | None \<Rightarrow> d) | _ \<Rightarrow> d)"

definition arr_items :: "json \<Rightarrow> json list" where
  "arr_items j = (case j of JArr xs \<Rightarrow> xs | _ \<Rightarrow> [])"

definition is_obj :: "json \<Rightarrow> bool" where
  "is_obj j = (case j of JObj kvs \<Rightarrow> True | _ \<Rightarrow> False)"

definition is_arr :: "json \<Rightarrow> bool" where
  "is_arr j = (case j of JArr xs \<Rightarrow> True | _ \<Rightarrow> False)"

definition spec_pages :: "json \<Rightarrow> json list" where
  "spec_pages file_data =
     arr_items (obj_get (obj_get file_data ''document'' (JObj [])) ''children'' (JArr []))"

definition spec_children :: "json \<Rightarrow> json list" where
  "spec_children page = arr_items (obj_get page ''children'' (JArr []))"

definition is_frame :: "json \<Rightarrow> bool" where
  "is_frame child = (obj_get child ''type'' JNull = JStr ''FRAME'')"

definition frame_of :: "json \<Rightarrow> frame" where
  "frame_of child =
     \<lparr>name = obj_get child ''name'' (JStr ''Unnamed Frame''),
      node_id = obj_get child ''id'' (JStr ''''),
      type = ''FRAME'', image_url = None\<rparr>"

definition spec_frames :: "json \<Rightarrow> frame list" where
  "spec_frames file_data =
     concat (map (\<lambda>page. map frame_of (filter is_frame (spec_children page)))
               (spec_pages file_data))"

definition list_field :: "json \<Rightarrow> bool" where
  "list_field j = (is_arr j \<or> j = JObj [] \<or> j = JStr [])"

definition well_shaped_page :: "json \<Rightarrow> bool" where
  "well_shaped_page page =
     (is_obj page \<and> list_field (obj_get page ''children'' (JArr []))
      \<and> list_all is_obj (spec_children page))"

definition well_shaped :: "json \<Rightarrow> bool" where
  "well_shaped file_data =
     (is_obj file_data \<and> is_obj (obj_get file_data ''document'' (JObj []))
      \<and> list_field (obj_get (obj_get file_data ''document'' (JObj [])) ''children'' (JArr []))
      \<and> list_all well_shaped_page (spec_pages file_data))"

text \<open>
  A document for the extraction: a frame with a frame nested in it, a frame without
  name and identifier, a frame with an empty identifier, a text node, a page whose
  \<^verbatim>\<open>children\<close> field is an empty object, and a second page with one frame. In the
  second tree a page is a string.
\<close>

definition nested_document :: json where
  "nested_document =
     JObj [(''document'', JObj [(''children'', JArr [
        JObj [(''children'', JArr [
           JObj [(''id'', JStr ''1:1''), (''name'', JStr ''A''), (''type'', JStr ''FRAME''),
                 (''children'', JArr [JObj [(''id'', JStr ''9:9''), (''type'', JStr ''FRAME'')]])],
           JObj [(''type'', JStr ''FRAME'')],
           JObj [(''id'', JStr []), (''name'', JStr ''E''), (''type'', JStr ''FRAME'')],
           JObj [(''id'', JStr ''1:4''), (''name'', JStr ''T''), (''type'', JStr ''TEXT'')]])],
        JObj [(''children'', JObj [])],
        JObj [(''children'', JArr [
           JObj [(''id'', JStr ''2:1''), (''name'', JStr ''B''), (''type'', JStr ''FRAME'')]])]])])]"

definition string_page_document :: json where
  "string_page_document = JObj [(''document'', JObj [(''children'', JArr [JStr ''page''])])]"

section \<open>A test environment\<close>

text \<open>
  The end-to-end example of the specification: the document \<^verbatim>\<open>ABC123\<close> has one page
  with the frame \<^verbatim>\<open>1:1\<close> named \<^verbatim>\<open>Hero\<close> and a text node; rendering and download
  succeed. Any other URL is unreachable.
\<close>

definition test_document :: json where
  "test_document =
     JObj [(''name'', JStr ''Test''),
           (''document'', JObj [(''id'', JStr ''0:0''), (''type'', JStr ''DOCUMENT''),
              (''children'', JArr [JObj [(''id'', JStr ''0:1''), (''type'', JStr ''CANVAS''),
                 (''children'', JArr [
                    JObj [(''id'', JStr ''1:1''), (''name'', JStr ''Hero''), (''type'', JStr ''FRAME'')],
                    JObj [(''id'', JStr ''1:2''), (''name'', JStr ''Note''), (''type'', JStr ''TEXT'')]])]])])]"

definition test_images :: json where
  "test_images =
     JObj [(''err'', JNull), (''images'', JObj [(''1:1'', JStr ''https://cdn/1.png'')])]"

definition ok_response :: "string \<Rightarrow> string + json \<Rightarrow> outcome" where
  "ok_response bytes j =
     Response \<lparr>status_code = 200, resp_text = bytes, resp_content = bytes, json_body = j\<rparr>"

definition test_net :: "(request \<times> outcome) list \<Rightarrow> request \<Rightarrow> outcome" where
  "test_net history r =
     (if req_url r = ''https://api.figma.com/v1/files/ABC123'' then
        ok_response ''{...}'' (Inr test_document)
      else if req_url r = ''https://api.figma.com/v1/images/ABC123'' then
        ok_response ''{...}'' (Inr test_images)
      else if req_url r = ''https://cdn/1.png'' then
        ok_response ''PNG'' (Inl ''Expecting value'')
      else Raised ''Connection refused'')"

definition test_env :: "((request \<times> outcome) list \<Rightarrow> request \<Rightarrow> outcome) \<Rightarrow> env" where
  "test_env n =
     \<lparr>BASE_URL = ''https://api.figma.com/v1'', FIGMA_API_TOKEN = Some ''secret'',
      UPLOAD_FOLDER = ''/app/uploads'', net = n, os_refuses = (\<lambda>path. False),
      url_refusal = (\<lambda>u. ''Invalid URL''), cwd = ''/app'', root_path = ''/app''\<rparr>"

definition test_world :: world where
  "test_world = \<lparr>sent = [], fs = Map.empty, logged = []\<rparr>"

section \<open>Predicates for batch rendering\<close>

text \<open>
  The slices \<^verbatim>\<open>frame_ids[i:i + 100]\<close> that the loop of \<^verbatim>\<open>fetch_figma_frame_images\<close>
  takes, the request it sends for a slice of strings, the exchanges a run adds, the
  mapping one outcome contributes (what \<^verbatim>\<open>image_urls.update\<close> adds to an empty
  dictionary; none when the outcome makes the loop raise), and the four failures that
  the specification lists.
\<close>

definition batches :: "json list \<Rightarrow> json list list" where
  "batches frame_ids =
     map (\<lambda>i. take max_ids_per_request (drop i frame_ids))
       (py_range (length frame_ids) max_ids_per_request)"

definition is_str :: "json \<Rightarrow> bool" where
  "is_str j = (str_of j \<noteq> None)"

definition batch_request :: "env \<Rightarrow> string \<Rightarrow> json \<Rightarrow> json \<Rightarrow> json list \<Rightarrow> request" where
  "batch_request e file_key scale format batch_ids =
     images_request e file_key scale format
       (join_strs '','' (map (\<lambda>x. the (str_of x)) batch_ids))"

definition new_exchanges :: "world \<Rightarrow> world \<Rightarrow> (request \<times> outcome) list" where
  "new_exchanges w w' = drop (length (sent w)) (sent w')"

definition chunk_mapping :: "outcome \<Rightarrow> pydict option" where
  "chunk_mapping out =
     (case merge_images Map.empty out of Inl ex \<Rightarrow> None | Inr m \<Rightarrow> Some m)"

definition chunk_fails :: "outcome \<Rightarrow> bool" where
  "chunk_fails out =
     (case out of
        Raised m \<Rightarrow> True
      | Response r \<Rightarrow>
          status_code r = 403 \<or> status_code r \<noteq> 200
          \<or> (case json_body r of
                Inr (JObj kvs) \<Rightarrow> (case map_of kvs ''err'' of Some v \<Rightarrow> truthy v | None \<Rightarrow> False)
              | _ \<Rightarrow> False))"

text \<open>
  The chunks as the specification words them: chunk \<open>i\<close> holds the identifiers from
  position \<open>100 * i\<close> on, at most 100 of them, and a list of \<open>n\<close> identifiers has
  \<open>\<lceil>n / 100\<rceil>\<close> chunks. The identifiers a request carries are read back from its
  \<^verbatim>\<open>ids\<close> parameter by splitting it at the commas. A request succeeds when the answer
  has status 200 and its body is an object without a truthy \<^verbatim>\<open>err\<close> field whose
  \<^verbatim>\<open>images\<close> field, if there is one, is an object; this object is the mapping of the
  chunk.
\<close>

definition chunk :: "nat \<Rightarrow> 'a list \<Rightarrow> 'a list" where
  "chunk i xs = take 100 (drop (100 * i) xs)"

definition chunk_count :: "nat \<Rightarrow> nat" where
  "chunk_count n = (n + 99) div 100"

definition strs :: "json list \<Rightarrow> string list" where
  "strs ids = map (\<lambda>x. the (str_of x)) ids"

definition request_ids :: "request \<Rightarrow> string list" where
  "request_ids r =
     (case map_of (req_params r) ''ids'' of
        Some (JStr s) \<Rightarrow> split_on (CHR '','') s
      | _ \<Rightarrow> [])"

definition chunk_ok :: "outcome \<Rightarrow> bool" where
  "chunk_ok out =
     (case out of
        Raised m \<Rightarrow> False
      | Response r \<Rightarrow>
          status_code r = 200
          \<and> (case json_body r of
                Inr (JObj kvs) \<Rightarrow>
                  (case map_of kvs ''err'' of None \<Rightarrow> True | Some v \<Rightarrow> \<not> truthy v)
                  \<and> (case map_of kvs ''images'' of
                        None \<Rightarrow> True
                      | Some (JObj images) \<Rightarrow> True
                      | Some other \<Rightarrow> False)
              | _ \<Rightarrow> False))"

definition chunk_urls :: "outcome \<Rightarrow> pydict" where
  "chunk_urls out =
     (case out of
        Response r \<Rightarrow>
          (case json_body r of
             Inr (JObj kvs) \<Rightarrow>
               (case map_of kvs ''images'' of
                  Some (JObj images) \<Rightarrow> dict_of images
                | _ \<Rightarrow> dict_of [])
           | _ \<Rightarrow> dict_of [])
      | Raised m \<Rightarrow> dict_of [])"

text \<open>
  A run with 250 identifiers, \<^verbatim>\<open>1:000\<close> to \<^verbatim>\<open>1:249\<close>, against a network that renders
  every identifier it is asked for.
\<close>

definition digit :: "nat \<Rightarrow> char" where
  "digit n = ''0123456789'' ! n"

definition test_id :: "nat \<Rightarrow> string" where
  "test_id n = ''1:'' @ [digit (n div 100), digit (n div 10 mod 10), digit (n mod 10)]"

definition test_ids :: "json list" where
  "test_ids = map (\<lambda>n. JStr (test_id n)) [0 ..< 250]"

definition test_url :: "string \<Rightarrow> json" where
  "test_url i = JStr (''https://cdn/'' @ i @ ''.png'')"

definition render_net :: "(request \<times> outcome) list \<Rightarrow> request \<Rightarrow> outcome" where
  "render_net history r =
     (case map_of (req_params r) ''ids'' of
        Some (JStr s) \<Rightarrow>
          ok_response ''{...}''
            (Inr (JObj [(''err'', JNull),
                        (''images'', JObj (map (\<lambda>i. (i, test_url i)) (split_on (CHR '','') s)))]))
      | _ \<Rightarrow> Raised ''Connection refused'')"

text \<open>The keys of the mapping of a chunk, in order, and the run of the 250 identifiers.\<close>

definition chunk_keys :: "outcome \<Rightarrow> string list" where
  "chunk_keys out =
     (case out of
        Response r \<Rightarrow>
          (case json_body r of
             Inr (JObj kvs) \<Rightarrow>
               (case map_of kvs ''images'' of
                  Some (JObj images) \<Rightarrow> map fst images
                | _ \<Rightarrow> [])
           | _ \<Rightarrow> [])
      | Raised m \<Rightarrow> [])"

definition render_run :: "(exn + pydict) \<times> world" where
  "render_run = fetch_figma_frame_images (test_env render_net) ''ABC123'' test_ids (JInt 1)
                (JStr ''png'') test_world"

text \<open>A network whose first answer is the rendering of \<^verbatim>\<open>1:1\<close> and every later one status 403.\<close>

definition flaky_net :: "(request \<times> outcome) list \<Rightarrow> request \<Rightarrow> outcome" where
  "flaky_net history r =
     (if history = [] then ok_response ''{...}'' (Inr test_images)
      else Response \<lparr>status_code = 403, resp_text = ''Forbidden'', resp_content = ''Forbidden'',
                     json_body = Inl ''Expecting value''\<rparr>)"

section \<open>Predicates for the downloader\<close>

text \<open>
  The two folders of \<^verbatim>\<open>download_images\<close> and the path of an image as the serve-image
  endpoint computes it.
\<close>

definition frame_folder :: "env \<Rightarrow> string" where
  "frame_folder e = os_path_join (UPLOAD_FOLDER e) [''frames'']"

definition session_folder_of :: "env \<Rightarrow> string \<Rightarrow> string" where
  "session_folder_of e sid = os_path_join (frame_folder e) [sid]"

definition image_path :: "env \<Rightarrow> string \<Rightarrow> string \<Rightarrow> string" where
  "image_path e sid nid = os_path_join (UPLOAD_FOLDER e) [''frames'', sid, sanitize nid @ ''.png'']"

text \<open>
  The download of one frame, in the words of the specification. The request for an
  image is a plain \<^verbatim>\<open>GET\<close> of its URL. The download of a frame succeeds in a world when
  the frame has a URL that can be sent, the network answers the request with status
  200, the node identifier is a string, and the file named after it in the session
  folder can be written: its directory is there, the path is not a directory, and the
  operating system does not refuse. \<open>file_at\<close> is what the process reads at a path:
  the bytes of the file there.
\<close>

definition get_request :: "string \<Rightarrow> request" where
  "get_request u = \<lparr>req_url = u, req_headers = [], req_params = []\<rparr>"

definition file_at :: "env \<Rightarrow> world \<Rightarrow> string \<Rightarrow> string option" where
  "file_at e w path =
     (if path = [] \<or> CHR 0x00 \<in> set path then None
      else case node_at w (resolve (cwd e) path) of
             Some (File bytes) \<Rightarrow> Some bytes
           | _ \<Rightarrow> None)"

definition writable :: "env \<Rightarrow> world \<Rightarrow> string \<Rightarrow> bool" where
  "writable e w path =
     (path \<noteq> [] \<and> CHR 0x00 \<notin> set path
      \<and> node_at w (butlast (resolve (cwd e) path)) = Some Dir
      \<and> node_at w (resolve (cwd e) path) \<noteq> Some Dir
      \<and> \<not> os_refuses e path)"

definition frame_file :: "string \<Rightarrow> frame \<Rightarrow> string option" where
  "frame_file session_folder f =
     (case node_id f of
        JStr nid \<Rightarrow> Some (os_path_join session_folder [sanitize nid @ ''.png''])
      | _ \<Rightarrow> None)"

definition download_answer :: "env \<Rightarrow> frame \<Rightarrow> world \<Rightarrow> response option" where
  "download_answer e f w =
     (case image_url f of
        Some (JStr u) \<Rightarrow>
          if http_url u then
            (case net e (sent w) (get_request u) of
               Response r \<Rightarrow> if status_code r = 200 then Some r else None
             | Raised m \<Rightarrow> None)
          else None
      | _ \<Rightarrow> None)"

definition download_succeeds :: "env \<Rightarrow> string \<Rightarrow> frame \<Rightarrow> world \<Rightarrow> bool" where
  "download_succeeds e session_folder f w =
     (case download_answer e f w of
        None \<Rightarrow> False
      | Some r \<Rightarrow>
          (case frame_file session_folder f of
             None \<Rightarrow> False
           | Some path \<Rightarrow> writable e w path))"

text \<open>
  The worlds of a run of the loop: the world in which each frame is tried, the one its
  predecessors left.
\<close>

fun download_worlds :: "env \<Rightarrow> string \<Rightarrow> frame list \<Rightarrow> world \<Rightarrow> world list" where
  "download_worlds e session_folder [] w = []"
| "download_worlds e session_folder (f # frames) w =
     w # download_worlds e session_folder frames (snd (download_frame e session_folder f w))"

definition loop_world :: "env \<Rightarrow> frame list \<Rightarrow> string \<Rightarrow> world \<Rightarrow> world" where
  "loop_world e frames sid w =
     snd (os_makedirs e (session_folder_of e sid) (snd (os_makedirs e (frame_folder e) w)))"

definition tried_in :: "env \<Rightarrow> frame list \<Rightarrow> string \<Rightarrow> world \<Rightarrow> nat \<Rightarrow> world" where
  "tried_in e frames sid w i =
     download_worlds e (session_folder_of e sid) frames (loop_world e frames sid w) ! i"

text \<open>
  The request \<^verbatim>\<open>GET /images/s/n\<close> for a session and a node identifier, and a segment as
  the rule of the endpoint takes it.
\<close>

definition images_url :: "string \<Rightarrow> string \<Rightarrow> string" where
  "images_url sid nid = ''/images/'' @ sid @ ''/'' @ nid"

definition url_segment :: "string \<Rightarrow> bool" where
  "url_segment s = (s \<noteq> [] \<and> CHR ''/'' \<notin> set s)"


section \<open>Identifier extraction from a URL\<close>

subsection \<open>The pattern matcher\<close>

lemma strip_prefix_Some: "strip_prefix p s = Some t \<longleftrightarrow> s = p @ t"
  by (auto simp: strip_prefix_def split: if_splits) (metis append_take_drop_id)

lemma strip_prefix_append: "strip_prefix p (p @ t) = Some t"
  by (simp add: strip_prefix_def)

lemma strip_prefix_Cons:
  "strip_prefix (c # p) (d # s) = (if c = d then strip_prefix p s else None)"
  by (simp add: strip_prefix_def)

lemma takeWhile_run:
  "takeWhile P t = X \<longleftrightarrow> (\<exists>post. t = X @ post \<and> list_all P X \<and> (post = [] \<or> \<not> P (hd post)))"
proof
  assume "takeWhile P t = X"
  then have "t = X @ dropWhile P t" "list_all P X"
    by (auto simp: list_all_iff dest: set_takeWhileD)
  moreover have "dropWhile P t = [] \<or> \<not> P (hd (dropWhile P t))"
    using hd_dropWhile by blast
  ultimately show "\<exists>post. t = X @ post \<and> list_all P X \<and> (post = [] \<or> \<not> P (hd post))"
    by blast
next
  assume "\<exists>post. t = X @ post \<and> list_all P X \<and> (post = [] \<or> \<not> P (hd post))"
  then obtain post where p: "t = X @ post" "list_all P X" "post = [] \<or> \<not> P (hd post)"
    by blast
  show "takeWhile P t = X"
  proof (cases post)
    case Nil
    then show ?thesis using p by (simp add: list_all_iff)
  next
    case (Cons c cs)
    then show ?thesis using p by (simp add: list_all_iff takeWhile_append2)
  qed
qed

lemma match_alts_Some:
  "match_alts alts r = Some X \<Longrightarrow>
     \<exists>a \<in> set alts. \<exists>post. r = a @ ''/'' @ X @ post \<and> X \<noteq> [] \<and> list_all id_char X
        \<and> (post = [] \<or> \<not> id_char (hd post))"
proof (induction alts)
  case Nil
  then show ?case by simp
next
  case (Cons a as)
  show ?case
  proof (cases "strip_prefix (a @ ''/'') r")
    case None
    then show ?thesis using Cons by auto
  next
    case (Some t)
    show ?thesis
    proof (cases "takeWhile id_char t = []")
      case True
      then show ?thesis using Cons Some by auto
    next
      case False
      then have X: "takeWhile id_char t = X" using Cons.prems Some by simp
      then obtain post where "t = X @ post" "list_all id_char X"
        "post = [] \<or> \<not> id_char (hd post)"
        unfolding takeWhile_run by blast
      moreover have "r = (a @ ''/'') @ t" using Some by (simp add: strip_prefix_Some)
      ultimately show ?thesis using False X by auto
    qed
  qed
qed

lemma match_at_figma: "match_at alts (''figma.com/'' @ r) = match_alts alts r"
  unfolding match_at_def strip_prefix_append by simp

lemma match_at_shape:
  assumes "match_at alts s = Some X"
  shows "\<exists>post. spec_shape alts [] X post s"
proof -
  from assms obtain r where r: "strip_prefix ''figma.com/'' s = Some r" "match_alts alts r = Some X"
    by (auto simp: match_at_def split: option.splits)
  from match_alts_Some[OF r(2)] obtain a post where
    "a \<in> set alts" "r = a @ ''/'' @ X @ post" "X \<noteq> []" "list_all id_char X"
    "post = [] \<or> \<not> id_char (hd post)" by blast
  moreover have "s = ''figma.com/'' @ r" using r(1) by (simp add: strip_prefix_Some)
  ultimately show ?thesis unfolding spec_shape_def by auto
qed

lemma match_alts_hit:
  assumes "X \<noteq> []" "list_all id_char X" "post = [] \<or> \<not> id_char (hd post)"
  shows "match_alts (a # as) (a @ ''/'' @ X @ post) = Some X"
proof -
  have tw: "takeWhile id_char (X @ post) = X"
    unfolding takeWhile_run using assms by blast
  have "strip_prefix (a @ ''/'') ((a @ ''/'') @ X @ post) = Some (X @ post)"
    by (rule strip_prefix_append)
  then have "strip_prefix (a @ ''/'') (a @ ''/'' @ X @ post) = Some (X @ post)"
    by simp
  then show ?thesis using tw assms(1) by simp
qed

lemma match_alts_skip:
  assumes "strip_prefix (a @ ''/'') r = None"
  shows "match_alts (a # as) r = match_alts as r"
  using assms by simp

lemma file_not_design: "strip_prefix (''file'' @ ''/'') (''design'' @ ''/'' @ t) = None"
  by (simp add: strip_prefix_Cons)

lemma match_at_file:
  assumes "X \<noteq> []" "list_all id_char X" "post = [] \<or> \<not> id_char (hd post)"
  shows "match_at pattern (''figma.com/'' @ ''file'' @ ''/'' @ X @ post) = Some X"
  unfolding match_at_figma pattern_def by (rule match_alts_hit[OF assms])

lemma match_at_design:
  assumes "X \<noteq> []" "list_all id_char X" "post = [] \<or> \<not> id_char (hd post)"
  shows "match_at pattern (''figma.com/'' @ ''design'' @ ''/'' @ X @ post) = Some X"
  unfolding match_at_figma pattern_def match_alts_skip[OF file_not_design]
  by (rule match_alts_hit[OF assms])

lemma match_at_board:
  assumes "X \<noteq> []" "list_all id_char X" "post = [] \<or> \<not> id_char (hd post)"
  shows "match_at board_pattern (''figma.com/'' @ ''board'' @ ''/'' @ X @ post) = Some X"
  unfolding match_at_figma board_pattern_def by (rule match_alts_hit[OF assms])

lemma shape_match_at_pattern:
  assumes "spec_shape pattern [] X post s"
  shows "match_at pattern s = Some X"
proof -
  from assms obtain a where a: "a \<in> set [''file'', ''design'']"
    "s = [] @ ''figma.com/'' @ a @ ''/'' @ X @ post" "X \<noteq> []" "list_all id_char X"
    "post = [] \<or> \<not> id_char (hd post)"
    unfolding spec_shape_def pattern_def by blast
  from a(1) have "a = ''file'' \<or> a = ''design''"
    by (simp only: set_simps insert_iff empty_iff simp_thms)
  then show ?thesis
  proof
    assume "a = ''file''"
    then show ?thesis using a(2) match_at_file[OF a(3,4,5)] by (simp only: append_Nil)
  next
    assume "a = ''design''"
    then show ?thesis using a(2) match_at_design[OF a(3,4,5)] by (simp only: append_Nil)
  qed
qed

lemma shape_match_at_board:
  assumes "spec_shape board_pattern [] X post s"
  shows "match_at board_pattern s = Some X"
proof -
  from assms obtain a where a: "a \<in> set [''board'']"
    "s = [] @ ''figma.com/'' @ a @ ''/'' @ X @ post" "X \<noteq> []" "list_all id_char X"
    "post = [] \<or> \<not> id_char (hd post)"
    unfolding spec_shape_def board_pattern_def by blast
  from a(1) have "a = ''board''" by (simp only: set_simps insert_iff empty_iff simp_thms)
  then show ?thesis using a(2) match_at_board[OF a(3,4,5)] by (simp only: append_Nil)
qed

lemma spec_shape_shift:
  "spec_shape alts pre X post (pre @ t) \<longleftrightarrow> spec_shape alts [] X post t"
  by (simp add: spec_shape_def)

lemma spec_shape_pre:
  "spec_shape alts pre X post u \<Longrightarrow> \<exists>t. u = pre @ t \<and> spec_shape alts [] X post t"
  by (auto simp: spec_shape_def)

lemma shape_match_at:
  assumes "alts = pattern \<or> alts = board_pattern" "spec_shape alts pre X post u"
  shows "u = pre @ drop (length pre) u \<and> match_at alts (drop (length pre) u) = Some X"
proof -
  from spec_shape_pre[OF assms(2)] obtain t where t: "u = pre @ t" "spec_shape alts [] X post t"
    by blast
  have "match_at alts t = Some X"
    using assms(1) t(2) shape_match_at_pattern shape_match_at_board by blast
  then show ?thesis using t(1) by simp
qed

subsection \<open>The leftmost match\<close>

lemma re_search_Some:
  "re_search alts s = Some X \<Longrightarrow>
     \<exists>pre t. s = pre @ t \<and> match_at alts t = Some X
        \<and> (\<forall>pre' t'. s = pre' @ t' \<and> length pre' < length pre \<longrightarrow> match_at alts t' = None)"
proof (induction s)
  case Nil
  then show ?case by auto
next
  case (Cons c cs)
  show ?case
  proof (cases "match_at alts (c # cs)")
    case (Some k)
    then have "match_at alts (c # cs) = Some X" using Cons.prems by simp
    then show ?thesis by (intro exI[of _ "[]"] exI[of _ "c # cs"]) simp
  next
    case None
    then have "re_search alts cs = Some X" using Cons.prems by simp
    from Cons.IH[OF this] obtain pre t where pt: "cs = pre @ t" "match_at alts t = Some X"
      "\<forall>pre' t'. cs = pre' @ t' \<and> length pre' < length pre \<longrightarrow> match_at alts t' = None"
      by blast
    have "\<forall>pre' t'. c # cs = pre' @ t' \<and> length pre' < length (c # pre)
            \<longrightarrow> match_at alts t' = None"
    proof (intro allI impI)
      fix pre' t' assume h: "c # cs = pre' @ t' \<and> length pre' < length (c # pre)"
      show "match_at alts t' = None"
      proof (cases pre')
        case Nil
        then show ?thesis using h None by simp
      next
        case (Cons d ds)
        then have "cs = ds @ t'" "length ds < length pre" using h by auto
        then show ?thesis using pt(3) by blast
      qed
    qed
    then show ?thesis using pt(1,2) by (intro exI[of _ "c # pre"] exI[of _ t]) simp
  qed
qed

lemma re_search_None:
  "re_search alts s = None \<longleftrightarrow> (\<forall>pre t. s = pre @ t \<longrightarrow> match_at alts t = None)"
proof (induction s)
  case Nil
  then show ?case by auto
next
  case (Cons c cs)
  show ?case
  proof (cases "match_at alts (c # cs)")
    case (Some k)
    then show ?thesis by (auto intro: exI[of _ "[]"])
  next
    case None
    have "(\<forall>pre t. c # cs = pre @ t \<longrightarrow> match_at alts t = None) \<longleftrightarrow>
          (\<forall>pre t. cs = pre @ t \<longrightarrow> match_at alts t = None)"
    proof
      assume a: "\<forall>pre t. c # cs = pre @ t \<longrightarrow> match_at alts t = None"
      show "\<forall>pre t. cs = pre @ t \<longrightarrow> match_at alts t = None"
      proof (intro allI impI)
        fix pre t assume "cs = pre @ t"
        then have "c # cs = (c # pre) @ t" by simp
        then show "match_at alts t = None" using a by blast
      qed
    next
      assume a: "\<forall>pre t. cs = pre @ t \<longrightarrow> match_at alts t = None"
      show "\<forall>pre t. c # cs = pre @ t \<longrightarrow> match_at alts t = None"
      proof (intro allI impI)
        fix pre t assume h: "c # cs = pre @ t"
        show "match_at alts t = None"
        proof (cases pre)
          case Nil
          then show ?thesis using h None by simp
        next
          case (Cons d ds)
          then show ?thesis using h a by auto
        qed
      qed
    qed
    then show ?thesis using None Cons.IH by simp
  qed
qed

lemma no_shape_no_match:
  assumes "\<forall>pre X post. \<not> spec_shape alts pre X post u"
  shows "re_search alts u = None"
proof (rule ccontr)
  assume "re_search alts u \<noteq> None"
  then obtain Y where "re_search alts u = Some Y" by blast
  from re_search_Some[OF this] obtain p t where pt: "u = p @ t" "match_at alts t = Some Y"
    by blast
  from match_at_shape[OF pt(2)] obtain post where "spec_shape alts [] Y post t" by blast
  then have "spec_shape alts p Y post u" using pt(1) spec_shape_shift by blast
  then show False using assms by blast
qed

lemma search_None_no_shape:
  assumes "alts = pattern \<or> alts = board_pattern" "re_search alts u = None"
  shows "\<not> spec_shape alts pre X post u"
proof
  assume "spec_shape alts pre X post u"
  from shape_match_at[OF assms(1) this] have "u = pre @ drop (length pre) u"
    "match_at alts (drop (length pre) u) = Some X" by blast+
  moreover from assms(2) have "\<forall>pre t. u = pre @ t \<longrightarrow> match_at alts t = None"
    unfolding re_search_None .
  ultimately show False by (metis option.distinct(1))
qed

lemma leftmost_shape_search:
  assumes a: "alts = pattern \<or> alts = board_pattern"
    and s: "spec_shape alts pre X post u"
    and l: "\<forall>pre' X' post'. spec_shape alts pre' X' post' u \<longrightarrow> length pre \<le> length pre'"
  shows "re_search alts u = Some X"
proof -
  from shape_match_at[OF a s] have m: "u = pre @ drop (length pre) u"
    "match_at alts (drop (length pre) u) = Some X" by blast+
  have "re_search alts u \<noteq> None"
    using m unfolding re_search_None by (metis option.distinct(1))
  then obtain Y where Y: "re_search alts u = Some Y" by blast
  from re_search_Some[OF Y] obtain p t where pt: "u = p @ t" "match_at alts t = Some Y"
    "\<forall>pre' t'. u = pre' @ t' \<and> length pre' < length p \<longrightarrow> match_at alts t' = None" by blast
  from match_at_shape[OF pt(2)] obtain post' where "spec_shape alts [] Y post' t" by blast
  then have "spec_shape alts p Y post' u" using pt(1) spec_shape_shift by blast
  then have "length pre \<le> length p" using l by blast
  moreover have "\<not> length pre < length p" using pt(3) m by (metis option.distinct(1))
  ultimately have "length pre = length p" by simp
  then have "p = pre" using m(1) pt(1) by (metis append_eq_append_conv)
  then have "t = drop (length pre) u" using pt(1) by simp
  then show ?thesis using Y pt(2) m(2) by simp
qed

subsection \<open>Identifier extraction\<close>

text \<open>
  C4. A URL in which the file/design shape stands, leftmost with the identifier \<open>X\<close>
  (the characters of \<open>X\<close> are letters, digits, underscores and hyphens, and \<open>X\<close> is not
  followed by another such character), yields exactly \<open>X\<close>, whether or not the board
  shape stands in it too: the file/design pattern is tried first. A URL in which neither
  shape stands anywhere is refused with the ValueError ``Invalid Figma URL''.
\<close>

theorem extract_file_key_shapes:
  "(spec_shape pattern pre X post u
      \<and> (\<forall>pre' X' post'. spec_shape pattern pre' X' post' u \<longrightarrow> length pre \<le> length pre')
      \<longrightarrow> extract_file_key (JStr u) = Inr X)
   \<and> (spec_shape pattern pre X post u
      \<and> (\<forall>pre' X' post'. spec_shape pattern pre' X' post' u \<longrightarrow> length pre \<le> length pre')
      \<and> spec_shape board_pattern pre2 Y post2 u
      \<longrightarrow> extract_file_key (JStr u) = Inr X)
   \<and> ((\<forall>pre' X' post'. \<not> spec_shape pattern pre' X' post' u)
        \<and> (\<forall>pre' X' post'. \<not> spec_shape board_pattern pre' X' post' u)
      \<longrightarrow> extract_file_key (JStr u) = Inl (ValueError [Lit ''Invalid Figma URL'']))"
proof (intro conjI impI)
  assume "spec_shape pattern pre X post u
      \<and> (\<forall>pre' X' post'. spec_shape pattern pre' X' post' u \<longrightarrow> length pre \<le> length pre')"
  then have "re_search pattern u = Some X"
    using leftmost_shape_search[of pattern pre X post u] by blast
  then show "extract_file_key (JStr u) = Inr X" by simp
next
  assume "spec_shape pattern pre X post u
      \<and> (\<forall>pre' X' post'. spec_shape pattern pre' X' post' u \<longrightarrow> length pre \<le> length pre')
      \<and> spec_shape board_pattern pre2 Y post2 u"
  then have "re_search pattern u = Some X"
    using leftmost_shape_search[of pattern pre X post u] by blast
  then show "extract_file_key (JStr u) = Inr X" by simp
next
  assume "(\<forall>pre' X' post'. \<not> spec_shape pattern pre' X' post' u)
        \<and> (\<forall>pre' X' post'. \<not> spec_shape board_pattern pre' X' post' u)"
  then have "re_search pattern u = None" "re_search board_pattern u = None"
    using no_shape_no_match by blast+
  then show "extract_file_key (JStr u) = Inl (ValueError [Lit ''Invalid Figma URL''])"
    by simp
qed

lemma test_url_shape:
  "spec_shape pattern ''https://www.'' ''ABC123'' ''/Test'' ''https://www.figma.com/file/ABC123/Test''"
  by (simp add: spec_shape_def pattern_def id_char_def)

lemma test_url_no_earlier:
  "list_all (\<lambda>j. match_at pattern (drop j ''https://www.figma.com/file/ABC123/Test'') = None) [0..<12]"
  by code_simp

lemma test_url_leftmost:
  assumes "spec_shape pattern pre' X' post' ''https://www.figma.com/file/ABC123/Test''"
  shows "length ''https://www.'' \<le> length pre'"
proof (rule ccontr)
  assume "\<not> length ''https://www.'' \<le> length pre'"
  then have "length pre' \<in> set [0..<12]" by simp
  then have "match_at pattern (drop (length pre') ''https://www.figma.com/file/ABC123/Test'') = None"
    using test_url_no_earlier unfolding list_all_iff by blast
  moreover have
    "match_at pattern (drop (length pre') ''https://www.figma.com/file/ABC123/Test'') = Some X'"
    using shape_match_at[OF _ assms] by (simp only: simp_thms)
  ultimately show False by (simp only: option.distinct)
qed

lemma both_url_shape:
  "spec_shape pattern ''https://figma.com/board/B1?from='' ''F2'' [] ''https://figma.com/board/B1?from=figma.com/design/F2''"
  by (simp add: spec_shape_def pattern_def id_char_def)

lemma both_url_board:
  "spec_shape board_pattern ''https://'' ''B1'' ''?from=figma.com/design/F2'' ''https://figma.com/board/B1?from=figma.com/design/F2''"
  by (simp add: spec_shape_def board_pattern_def id_char_def)

lemma both_url_no_earlier:
  "list_all (\<lambda>j. match_at pattern (drop j ''https://figma.com/board/B1?from=figma.com/design/F2'') = None) [0..<32]"
  by code_simp

lemma both_url_leftmost:
  assumes "spec_shape pattern pre' X' post' ''https://figma.com/board/B1?from=figma.com/design/F2''"
  shows "length ''https://figma.com/board/B1?from='' \<le> length pre'"
proof (rule ccontr)
  assume "\<not> length ''https://figma.com/board/B1?from='' \<le> length pre'"
  then have "length pre' \<in> set [0..<32]" by simp
  then have "match_at pattern (drop (length pre') ''https://figma.com/board/B1?from=figma.com/design/F2'') = None"
    using both_url_no_earlier unfolding list_all_iff by blast
  moreover have
    "match_at pattern (drop (length pre') ''https://figma.com/board/B1?from=figma.com/design/F2'') = Some X'"
    using shape_match_at[OF _ assms] by (simp only: simp_thms)
  ultimately show False by (simp only: option.distinct)
qed

lemma other_url_pattern: "re_search pattern ''https://example.com/file/ABC123'' = None"
  by code_simp

lemma other_url_board: "re_search board_pattern ''https://example.com/file/ABC123'' = None"
  by code_simp

theorem extract_file_key_shapes_witness:
  "extract_file_key (JStr ''https://www.figma.com/file/ABC123/Test'') = Inr ''ABC123''
   \<and> extract_file_key (JStr ''https://figma.com/board/B1?from=figma.com/design/F2'') = Inr ''F2''
   \<and> extract_file_key (JStr ''https://example.com/file/ABC123'')
       = Inl (ValueError [Lit ''Invalid Figma URL''])"
proof (intro conjI)
  have l: "\<forall>pre' X' post'. spec_shape pattern pre' X' post' ''https://www.figma.com/file/ABC123/Test''
      \<longrightarrow> length ''https://www.'' \<le> length pre'"
    using test_url_leftmost by blast
  show "extract_file_key (JStr ''https://www.figma.com/file/ABC123/Test'') = Inr ''ABC123''"
    using extract_file_key_shapes[of "''https://www.''" "''ABC123''" "''/Test''"
        "''https://www.figma.com/file/ABC123/Test''"]
      test_url_shape l by (simp only: simp_thms)
next
  have l: "\<forall>pre' X' post'.
      spec_shape pattern pre' X' post' ''https://figma.com/board/B1?from=figma.com/design/F2''
      \<longrightarrow> length ''https://figma.com/board/B1?from='' \<le> length pre'"
    using both_url_leftmost by blast
  show "extract_file_key (JStr ''https://figma.com/board/B1?from=figma.com/design/F2'') = Inr ''F2''"
    using extract_file_key_shapes[of "''https://figma.com/board/B1?from=''" "''F2''" "[]"
        "''https://figma.com/board/B1?from=figma.com/design/F2''"
        "''https://''" "''B1''" "''?from=figma.com/design/F2''"]
      both_url_shape both_url_board l by (simp only: simp_thms)
next
  have a: "\<forall>pre' X' post'. \<not> spec_shape pattern pre' X' post' ''https://example.com/file/ABC123''"
    using search_None_no_shape[OF _ other_url_pattern] by (simp only: simp_thms)
  have b: "\<forall>pre' X' post'. \<not> spec_shape board_pattern pre' X' post' ''https://example.com/file/ABC123''"
    using search_None_no_shape[OF _ other_url_board] by (simp only: simp_thms)
  show "extract_file_key (JStr ''https://example.com/file/ABC123'')
       = Inl (ValueError [Lit ''Invalid Figma URL''])"
    using extract_file_key_shapes[of _ _ _ "''https://example.com/file/ABC123''"] a b
    by (simp only: simp_thms)
qed

section \<open>Sanitized node identifiers\<close>










section \<open>The remote document fetch\<close>

lemma fetch_figma_file_sent:
  "sent (snd (fetch_figma_file e k w))
     = sent w @ [(files_request e k, net e (sent w) (files_request e k))]
   \<and> fs (snd (fetch_figma_file e k w)) = fs w"
  unfolding fetch_figma_file_def requests_get_def Let_def network_error_def logger_def
  by (cases "net e (sent w) (files_request e k)")
     (simp_all split: sum.split)

lemma fetch_figma_file_Raised:
  assumes "net e (sent w) (files_request e k) = Raised m"
  shows "fst (fetch_figma_file e k w)
           = Inl (Exception [Lit ''Network error: '', StrExn (RequestException m)])"
  unfolding fetch_figma_file_def requests_get_def Let_def network_error_def
  using assms by simp

lemma fetch_figma_file_Response:
  assumes "net e (sent w) (files_request e k) = Response r"
  shows "fst (fetch_figma_file e k w) =
     (if status_code r = 403 then Inl (Exception [Lit ''403 Forbidden: '', Lit (resp_text r)])
      else if status_code r \<noteq> 200 then
        Inl (Exception [Lit ''Figma API error (Status '', StrInt (status_code r), Lit ''): '',
                        Lit (resp_text r)])
      else case json_body r of
             Inl m \<Rightarrow> Inl (Exception [Lit ''Network error: '', StrExn (RequestException m)])
           | Inr j \<Rightarrow> Inr j)"
  unfolding fetch_figma_file_def requests_get_def Let_def network_error_def
  using assms by (simp split: sum.split)

text \<open>
  C8. The fetch sends exactly one request, the one for the document. With status 200
  it returns the parsed body as it is; with status 403 it raises an exception that
  carries the body; with any other status one that carries the status and the body;
  when the transport fails, one that carries the message of the failure. It touches no
  file.
\<close>

theorem fetch_figma_file_contract:
  assumes "fetch_figma_file e k w = (res, w')"
  shows "sent w' = sent w @ [(files_request e k, net e (sent w) (files_request e k))]
     \<and> fs w' = fs w
     \<and> (\<forall>r j. net e (sent w) (files_request e k) = Response r \<and> status_code r = 200
            \<and> json_body r = Inr j \<longrightarrow> res = Inr j)
     \<and> (\<forall>r. net e (sent w) (files_request e k) = Response r \<and> status_code r = 403
            \<longrightarrow> res = Inl (Exception [Lit ''403 Forbidden: '', Lit (resp_text r)]))
     \<and> (\<forall>r. net e (sent w) (files_request e k) = Response r \<and> status_code r \<noteq> 200
            \<and> status_code r \<noteq> 403
            \<longrightarrow> res = Inl (Exception [Lit ''Figma API error (Status '', StrInt (status_code r),
                                       Lit ''): '', Lit (resp_text r)]))
     \<and> (\<forall>m. net e (sent w) (files_request e k) = Raised m
            \<longrightarrow> res = Inl (Exception [Lit ''Network error: '', StrExn (RequestException m)]))"
proof -
  have r: "res = fst (fetch_figma_file e k w)" and w: "w' = snd (fetch_figma_file e k w)"
    using assms by simp_all
  show ?thesis
    unfolding r w
    using fetch_figma_file_sent[of e k w] fetch_figma_file_Raised[of e w k]
      fetch_figma_file_Response[of e w k]
    by simp
qed

theorem fetch_figma_file_contract_witness:
  "fst (fetch_figma_file (test_env test_net) ''ABC123'' test_world) = Inr test_document
   \<and> length (sent (snd (fetch_figma_file (test_env test_net) ''ABC123'' test_world))) = 1
   \<and> fst (fetch_figma_file
            (test_env (\<lambda>h r. Response \<lparr>status_code = 403, resp_text = ''Invalid token'',
                                        resp_content = [], json_body = Inl []\<rparr>))
            ''ABC123'' test_world)
       = Inl (Exception [Lit ''403 Forbidden: '', Lit ''Invalid token''])
   \<and> fst (fetch_figma_file
            (test_env (\<lambda>h r. Response \<lparr>status_code = 404, resp_text = ''Not found'',
                                        resp_content = [], json_body = Inl []\<rparr>))
            ''ABC123'' test_world)
       = Inl (Exception [Lit ''Figma API error (Status '', StrInt 404, Lit ''): '',
                         Lit ''Not found''])
   \<and> fst (fetch_figma_file (test_env (\<lambda>h r. Raised ''timed out'')) ''ABC123'' test_world)
       = Inl (Exception [Lit ''Network error: '', StrExn (RequestException ''timed out'')])"
proof (intro conjI)
  have n: "net (test_env test_net) (sent test_world) (files_request (test_env test_net) ''ABC123'')
      = ok_response ''{...}'' (Inr test_document)"
    by (simp add: test_env_def test_net_def files_request_def)
  show "fst (fetch_figma_file (test_env test_net) ''ABC123'' test_world) = Inr test_document"
    using fetch_figma_file_contract[OF surjective_pairing, of "test_env test_net" "''ABC123''"
        test_world] n
    by (simp add: ok_response_def)
  show "length (sent (snd (fetch_figma_file (test_env test_net) ''ABC123'' test_world))) = 1"
    using fetch_figma_file_contract[OF surjective_pairing, of "test_env test_net" "''ABC123''"
        test_world]
    by (simp add: test_world_def)
  show "fst (fetch_figma_file
            (test_env (\<lambda>h r. Response \<lparr>status_code = 403, resp_text = ''Invalid token'',
                                        resp_content = [], json_body = Inl []\<rparr>))
            ''ABC123'' test_world)
       = Inl (Exception [Lit ''403 Forbidden: '', Lit ''Invalid token''])"
    using fetch_figma_file_contract[OF surjective_pairing, of
        "test_env (\<lambda>h r. Response \<lparr>status_code = 403, resp_text = ''Invalid token'',
                                        resp_content = [], json_body = Inl []\<rparr>)"
        "''ABC123''" test_world]
    by (simp add: test_env_def)
  show "fst (fetch_figma_file
            (test_env (\<lambda>h r. Response \<lparr>status_code = 404, resp_text = ''Not found'',
                                        resp_content = [], json_body = Inl []\<rparr>))
            ''ABC123'' test_world)
       = Inl (Exception [Lit ''Figma API error (Status '', StrInt 404, Lit ''): '',
                         Lit ''Not found''])"
    using fetch_figma_file_contract[OF surjective_pairing, of
        "test_env (\<lambda>h r. Response \<lparr>status_code = 404, resp_text = ''Not found'',
                                        resp_content = [], json_body = Inl []\<rparr>)"
        "''ABC123''" test_world]
    by (simp add: test_env_def)
  show "fst (fetch_figma_file (test_env (\<lambda>h r. Raised ''timed out'')) ''ABC123'' test_world)
       = Inl (Exception [Lit ''Network error: '', StrExn (RequestException ''timed out'')])"
    using fetch_figma_file_contract[OF surjective_pairing, of
        "test_env (\<lambda>h r. Raised ''timed out'')" "''ABC123''" test_world]
    by (simp add: test_env_def)
qed

section \<open>The guard of the process operation\<close>

text \<open>
  When the guard for the two required fields fires, \<^verbatim>\<open>abort(400, ...)\<close> raises inside
  the \<^verbatim>\<open>try\<close>, and the handler for \<^verbatim>\<open>Exception\<close> turns it into status 500. No request
  is sent and no file is touched.
\<close>

lemma process_figma_guard:
  assumes "missing_fields data = Inr True"
  shows "process_figma e (Inr data) w =
     (Aborted 500 [StrExn (HTTPException 400 [Lit ''Missing figma_url or session_id''])],
      logger (LogError [Lit ''Error processing Figma URL: '',
                        StrExn (HTTPException 400 [Lit ''Missing figma_url or session_id''])]) w)"
  unfolding process_figma_def process_try_def using assms by simp

lemma missing_session_id:
  "missing_fields (JObj [(''figma_url'', JStr ''https://figma.com/file/ABC123/Test'')]) = Inr True"
  by (simp add: missing_fields_def)

text \<open>
  C1. A request with \<^verbatim>\<open>figma_url\<close> and no \<^verbatim>\<open>session_id\<close> is answered with status 500
  and the description \<^verbatim>\<open>str\<close> of the HTTPException of status 400, not with status 400;
  the exchanges and the files are as before.
\<close>

theorem process_figma_missing_session_id:
  "fst (process_figma e (Inr (JObj [(''figma_url'', JStr ''https://figma.com/file/ABC123/Test'')])) w)
     = Aborted 500 [StrExn (HTTPException 400 [Lit ''Missing figma_url or session_id''])]
   \<and> sent (snd (process_figma e
        (Inr (JObj [(''figma_url'', JStr ''https://figma.com/file/ABC123/Test'')])) w)) = sent w
   \<and> fs (snd (process_figma e
        (Inr (JObj [(''figma_url'', JStr ''https://figma.com/file/ABC123/Test'')])) w)) = fs w"
  unfolding process_figma_guard[OF missing_session_id] by (simp add: logger_def)

section \<open>Frame extraction\<close>

lemma list_field_iter: "list_field j \<Longrightarrow> py_iter j = Inr (arr_items j)"
  unfolding list_field_def is_arr_def arr_items_def by (cases j) auto

lemma not_list_field_iter:
  assumes "\<not> list_field j"
  shows "py_iter j = Inl TypeError
     \<or> (\<exists>x xs. py_iter j = Inr (x # xs) \<and> \<not> is_obj x)"
proof (cases j)
  case (JStr s)
  then have "s \<noteq> []" using assms by (auto simp: list_field_def)
  then obtain c cs where "s = c # cs" by (cases s) auto
  then show ?thesis using JStr by (simp add: is_obj_def)
next
  case (JObj kvs)
  then have "kvs \<noteq> []" using assms by (auto simp: list_field_def)
  then obtain kv rest where "kvs = kv # rest" by (cases kvs) auto
  then show ?thesis using JObj by (simp add: is_obj_def)
next
  case (JArr xs)
  then show ?thesis using assms by (simp add: list_field_def is_arr_def)
qed simp_all

lemma extract_children_objs:
  assumes "list_all is_obj cs"
  shows "extract_children cs (frames, ids) =
     Inr (frames @ map frame_of (filter is_frame cs),
          ids @ filter truthy (map node_id (map frame_of (filter is_frame cs))))"
  using assms
proof (induction cs arbitrary: frames ids)
  case Nil
  then show ?case by simp
next
  case (Cons c cs)
  then obtain kvs where c: "c = JObj kvs" by (cases c) (simp_all add: is_obj_def)
  have rest: "list_all is_obj cs" using Cons.prems by simp
  show ?case
  proof (cases "map_of kvs ''type'' = Some (JStr ''FRAME'')")
    case False
    then have "\<not> is_frame c"
      unfolding is_frame_def obj_get_def c by (auto split: option.splits)
    then show ?thesis using False Cons.IH[OF rest] c by simp
  next
    case True
    then have f: "is_frame c" unfolding is_frame_def obj_get_def c by simp
    have n: "node_id (frame_of c) = (case map_of kvs ''id'' of Some i \<Rightarrow> i | None \<Rightarrow> JStr '''')"
      unfolding frame_of_def obj_get_def c by simp
    have fr: "frame_of c =
        \<lparr>name = (case map_of kvs ''name'' of Some n \<Rightarrow> n | None \<Rightarrow> JStr ''Unnamed Frame''),
         node_id = (case map_of kvs ''id'' of Some i \<Rightarrow> i | None \<Rightarrow> JStr ''''),
         type = ''FRAME'', image_url = None\<rparr>"
      unfolding frame_of_def obj_get_def c by simp
    have i: "(case map_of kvs ''id'' of
               Some i \<Rightarrow> if truthy i then ids @ [i] else ids
             | None \<Rightarrow> ids) = ids @ filter truthy [node_id (frame_of c)]"
      unfolding n by (simp split: option.splits)
    show ?thesis
      unfolding c extract_children.simps
      using True f Cons.IH[OF rest] i fr c by simp
  qed
qed

lemma extract_children_not_objs:
  assumes "\<not> list_all is_obj cs"
  shows "extract_children cs (frames, ids) = Inl AttributeError"
  using assms
proof (induction cs arbitrary: frames ids)
  case Nil
  then show ?case by simp
next
  case (Cons c cs)
  show ?case
  proof (cases c)
    case (JObj kvs)
    then have "is_obj c" by (simp add: is_obj_def)
    then have "\<not> list_all is_obj cs" using Cons.prems by simp
    then show ?thesis using Cons.IH JObj by simp
  qed simp_all
qed

lemma extract_page_shaped:
  assumes "well_shaped_page p"
  shows "extract_pages (p # ps) (frames, ids) =
     extract_pages ps
       (frames @ map frame_of (filter is_frame (spec_children p)),
        ids @ filter truthy (map node_id (map frame_of (filter is_frame (spec_children p)))))"
proof -
  from assms have p: "is_obj p" "list_field (obj_get p ''children'' (JArr []))"
    "list_all is_obj (spec_children p)"
    by (simp_all add: well_shaped_page_def)
  from p(1) obtain kvs where k: "p = JObj kvs" by (cases p) (simp_all add: is_obj_def)
  have g: "py_get p ''children'' (JArr []) = Inr (obj_get p ''children'' (JArr []))"
    unfolding k obj_get_def by simp
  have it: "py_iter (obj_get p ''children'' (JArr [])) = Inr (spec_children p)"
    unfolding spec_children_def by (rule list_field_iter[OF p(2)])
  show ?thesis
    using g it extract_children_objs[OF p(3), of frames ids] by simp
qed

lemma extract_page_not_shaped:
  assumes "\<not> well_shaped_page p"
  shows "extract_pages (p # ps) acc = Inl AttributeError
     \<or> extract_pages (p # ps) acc = Inl TypeError"
proof (cases "is_obj p")
  case False
  then have "py_get p ''children'' (JArr []) = Inl AttributeError"
    by (cases p) (simp_all add: is_obj_def)
  then show ?thesis by simp
next
  case True
  then obtain kvs where k: "p = JObj kvs" by (cases p) (simp_all add: is_obj_def)
  have g: "py_get p ''children'' (JArr []) = Inr (obj_get p ''children'' (JArr []))"
    unfolding k obj_get_def by simp
  obtain frames ids where acc: "acc = (frames, ids)" by (cases acc)
  show ?thesis
  proof (cases "list_field (obj_get p ''children'' (JArr []))")
    case lf: True
    then have "\<not> list_all is_obj (spec_children p)"
      using assms True by (simp add: well_shaped_page_def)
    then have "extract_children (spec_children p) (frames, ids) = Inl AttributeError"
      by (rule extract_children_not_objs)
    moreover have "py_iter (obj_get p ''children'' (JArr [])) = Inr (spec_children p)"
      unfolding spec_children_def by (rule list_field_iter[OF lf])
    ultimately show ?thesis using g acc by simp
  next
    case False
    from not_list_field_iter[OF this] show ?thesis
    proof (elim disjE exE conjE)
      assume "py_iter (obj_get p ''children'' (JArr [])) = Inl TypeError"
      then show ?thesis using g by simp
    next
      fix x xs
      assume a: "py_iter (obj_get p ''children'' (JArr [])) = Inr (x # xs)" "\<not> is_obj x"
      then have "\<not> list_all is_obj (x # xs)" by simp
      then have "extract_children (x # xs) (frames, ids) = Inl AttributeError"
        by (rule extract_children_not_objs)
      then show ?thesis using g a(1) acc by simp
    qed
  qed
qed

lemma extract_pages_shaped:
  assumes "list_all well_shaped_page ps"
  shows "extract_pages ps (frames, ids) =
     Inr (frames @ concat (map (\<lambda>page. map frame_of (filter is_frame (spec_children page))) ps),
          ids @ filter truthy (map node_id
                 (concat (map (\<lambda>page. map frame_of (filter is_frame (spec_children page))) ps))))"
  using assms
proof (induction ps arbitrary: frames ids)
  case Nil
  then show ?case by simp
next
  case (Cons p ps)
  then have wp: "well_shaped_page p" and rest: "list_all well_shaped_page ps"
    by simp_all
  show ?case
    unfolding extract_page_shaped[OF wp] Cons.IH[OF rest] by simp
qed

lemma extract_pages_not_shaped:
  assumes "\<not> list_all well_shaped_page ps"
  shows "extract_pages ps acc = Inl AttributeError \<or> extract_pages ps acc = Inl TypeError"
  using assms
proof (induction ps arbitrary: acc)
  case Nil
  then show ?case by simp
next
  case (Cons p ps)
  show ?case
  proof (cases "well_shaped_page p")
    case False
    then show ?thesis by (rule extract_page_not_shaped)
  next
    case True
    then have rest: "\<not> list_all well_shaped_page ps" using Cons.prems by simp
    obtain frames ids where acc: "acc = (frames, ids)" by (cases acc)
    show ?thesis
      unfolding acc extract_page_shaped[OF True] by (rule Cons.IH[OF rest])
  qed
qed

lemma extract_frames_shaped:
  assumes "well_shaped d"
  shows "extract_frames d = Inr (spec_frames d, filter truthy (map node_id (spec_frames d)))"
proof -
  from assms have a: "is_obj d" "is_obj (obj_get d ''document'' (JObj []))"
    "list_field (obj_get (obj_get d ''document'' (JObj [])) ''children'' (JArr []))"
    "list_all well_shaped_page (spec_pages d)"
    by (simp_all add: well_shaped_def)
  from a(1) obtain kvs where k: "d = JObj kvs" by (cases d) (simp_all add: is_obj_def)
  from a(2) obtain dk where dk: "obj_get d ''document'' (JObj []) = JObj dk"
    by (cases "obj_get d ''document'' (JObj [])") (simp_all add: is_obj_def)
  have g1: "py_get d ''document'' (JObj []) = Inr (JObj dk)"
    using dk unfolding k obj_get_def by simp
  have g2: "py_get (JObj dk) ''children'' (JArr [])
      = Inr (obj_get (JObj dk) ''children'' (JArr []))"
    unfolding obj_get_def by simp
  have it: "py_iter (obj_get (JObj dk) ''children'' (JArr [])) = Inr (spec_pages d)"
    unfolding spec_pages_def dk by (rule list_field_iter[OF a(3)[unfolded dk]])
  show ?thesis
    unfolding extract_frames_def spec_frames_def
    using g1 g2 it extract_pages_shaped[OF a(4), of "[]" "[]"]
    by simp
qed

lemma extract_frames_not_shaped:
  assumes "\<not> well_shaped d"
  shows "extract_frames d = Inl AttributeError \<or> extract_frames d = Inl TypeError"
proof (cases "is_obj d")
  case False
  then have "py_get d ''document'' (JObj []) = Inl AttributeError"
    by (cases d) (simp_all add: is_obj_def)
  then show ?thesis by (simp add: extract_frames_def)
next
  case True
  then obtain kvs where k: "d = JObj kvs" by (cases d) (simp_all add: is_obj_def)
  let ?doc = "obj_get d ''document'' (JObj [])"
  have g1: "py_get d ''document'' (JObj []) = Inr ?doc"
    unfolding k obj_get_def by simp
  show ?thesis
  proof (cases "is_obj ?doc")
    case False
    then have "py_get ?doc ''children'' (JArr []) = Inl AttributeError"
      by (cases ?doc) (simp_all add: is_obj_def)
    then show ?thesis using g1 by (simp add: extract_frames_def)
  next
    case doc: True
    then obtain dk where dk: "?doc = JObj dk" by (cases ?doc) (simp_all add: is_obj_def)
    let ?cs = "obj_get ?doc ''children'' (JArr [])"
    have g2: "py_get ?doc ''children'' (JArr []) = Inr ?cs"
      unfolding dk by (simp add: obj_get_def)
    show ?thesis
    proof (cases "list_field ?cs")
      case lf: True
      then have bad: "\<not> list_all well_shaped_page (spec_pages d)"
        using assms True doc by (simp add: well_shaped_def)
      have it: "py_iter ?cs = Inr (spec_pages d)"
        unfolding spec_pages_def by (rule list_field_iter[OF lf])
      from extract_pages_not_shaped[OF bad, of "([], [])"] show ?thesis
        using g1 g2 it by (simp add: extract_frames_def)
    next
      case False
      from not_list_field_iter[OF this] show ?thesis
      proof (elim disjE exE conjE)
        assume "py_iter ?cs = Inl TypeError"
        then show ?thesis using g1 g2 by (simp add: extract_frames_def)
      next
        fix x xs
        assume a: "py_iter ?cs = Inr (x # xs)" "\<not> is_obj x"
        then have "\<not> well_shaped_page x" by (simp add: well_shaped_page_def)
        from extract_page_not_shaped[OF this, of xs "([], [])"] show ?thesis
          using g1 g2 a(1) by (simp add: extract_frames_def)
      qed
    qed
  qed
qed

text \<open>
  C3, as the code has it. On a well-shaped tree extraction does not raise; it returns
  the frame-kind children of the pages in page-then-child order, each with its name
  (\<^verbatim>\<open>Unnamed Frame\<close> when missing) and identifier (empty when missing), and the
  identifiers of these frames in the same order without the ones that are missing or
  falsy. Nothing below the children of a page is visited. On every tree that is not
  well shaped extraction raises an AttributeError or a TypeError.
\<close>

theorem extract_frames_well_shaped:
  "(well_shaped d \<longrightarrow>
      extract_frames d = Inr (spec_frames d, filter truthy (map node_id (spec_frames d))))
   \<and> (\<not> well_shaped d \<longrightarrow>
      extract_frames d = Inl AttributeError \<or> extract_frames d = Inl TypeError)"
  using extract_frames_shaped extract_frames_not_shaped by blast

text \<open>
  The claim as stated fails: a tree whose document node is \<^verbatim>\<open>null\<close> makes
  \<^verbatim>\<open>document.get\<close> raise.
\<close>

theorem extract_frames_raises:
  "extract_frames (JObj [(''document'', JNull)]) = Inl AttributeError"
  by (simp add: extract_frames_def)

lemma nested_document_shaped: "well_shaped nested_document"
  by code_simp

lemma nested_document_frames:
  "spec_frames nested_document =
     [\<lparr>name = JStr ''A'', node_id = JStr ''1:1'', type = ''FRAME'', image_url = None\<rparr>,
      \<lparr>name = JStr ''Unnamed Frame'', node_id = JStr '''', type = ''FRAME'', image_url = None\<rparr>,
      \<lparr>name = JStr ''E'', node_id = JStr '''', type = ''FRAME'', image_url = None\<rparr>,
      \<lparr>name = JStr ''B'', node_id = JStr ''2:1'', type = ''FRAME'', image_url = None\<rparr>]"
  by code_simp

lemma string_page_document_shaped: "\<not> well_shaped string_page_document"
  by code_simp

lemma string_page_no_type_error: "extract_frames string_page_document \<noteq> Inl TypeError"
  by code_simp

theorem extract_frames_well_shaped_witness:
  "well_shaped nested_document
   \<and> extract_frames nested_document =
       Inr ([\<lparr>name = JStr ''A'', node_id = JStr ''1:1'', type = ''FRAME'', image_url = None\<rparr>,
             \<lparr>name = JStr ''Unnamed Frame'', node_id = JStr '''', type = ''FRAME'',
              image_url = None\<rparr>,
             \<lparr>name = JStr ''E'', node_id = JStr '''', type = ''FRAME'', image_url = None\<rparr>,
             \<lparr>name = JStr ''B'', node_id = JStr ''2:1'', type = ''FRAME'', image_url = None\<rparr>],
            [JStr ''1:1'', JStr ''2:1''])
   \<and> \<not> well_shaped string_page_document
   \<and> extract_frames string_page_document = Inl AttributeError"
proof (intro conjI)
  note inst = extract_frames_well_shaped[of nested_document]
  show "well_shaped nested_document" by (rule nested_document_shaped)
  have "extract_frames nested_document =
      Inr (spec_frames nested_document,
           filter truthy (map node_id (spec_frames nested_document)))"
    using inst[THEN conjunct1] nested_document_shaped by (rule mp)
  then show "extract_frames nested_document =
       Inr ([\<lparr>name = JStr ''A'', node_id = JStr ''1:1'', type = ''FRAME'', image_url = None\<rparr>,
             \<lparr>name = JStr ''Unnamed Frame'', node_id = JStr '''', type = ''FRAME'',
              image_url = None\<rparr>,
             \<lparr>name = JStr ''E'', node_id = JStr '''', type = ''FRAME'', image_url = None\<rparr>,
             \<lparr>name = JStr ''B'', node_id = JStr ''2:1'', type = ''FRAME'', image_url = None\<rparr>],
            [JStr ''1:1'', JStr ''2:1''])"
    unfolding nested_document_frames by simp
  show "\<not> well_shaped string_page_document" by (rule string_page_document_shaped)
  note bad = extract_frames_well_shaped[of string_page_document]
  have "extract_frames string_page_document = Inl AttributeError
      \<or> extract_frames string_page_document = Inl TypeError"
    using bad[THEN conjunct2] string_page_document_shaped by (rule mp)
  then show "extract_frames string_page_document = Inl AttributeError"
    using string_page_no_type_error by blast
qed

section \<open>Rendering in batches\<close>

subsection \<open>Merging dictionaries\<close>

lemma update_pairs_add:
  "update_pairs (d ++ a) items =
     (case update_pairs a items of Inl ex \<Rightarrow> Inl ex | Inr m \<Rightarrow> Inr (d ++ m))"
proof (induction items arbitrary: a)
  case Nil
  then show ?case by simp
next
  case (Cons item items)
  show ?case
  proof (cases "py_iter item")
    case (Inl ex)
    then show ?thesis by simp
  next
    case (Inr kv)
    show ?thesis
    proof (cases "\<exists>k v. kv = [k, v]")
      case False
      then have "(case kv of [k, v] \<Rightarrow> f k v | _ \<Rightarrow> g) = g" for f :: "json \<Rightarrow> json \<Rightarrow> exn + pydict" and g
        by (auto split: list.splits)
      then show ?thesis using Inr by simp
    next
      case True
      then obtain k v where kv: "kv = [k, v]" by blast
      show ?thesis
      proof (cases "hash_key k")
        case None
        then show ?thesis using Inr kv by simp
      next
        case (Some hk)
        have l: "update_pairs (d ++ a) (item # items) = update_pairs ((d ++ a)(hk \<mapsto> v)) items"
          using Inr kv Some by simp
        have r: "update_pairs a (item # items) = update_pairs (a(hk \<mapsto> v)) items"
          using Inr kv Some by simp
        have e: "(d ++ a)(hk \<mapsto> v) = d ++ a(hk \<mapsto> v)" by simp
        show ?thesis unfolding l r e by (rule Cons.IH)
      qed
    qed
  qed
qed

lemma dict_update_add:
  "dict_update d v =
     (case dict_update Map.empty v of Inl ex \<Rightarrow> Inl ex | Inr m \<Rightarrow> Inr (d ++ m))"
proof (cases v)
  case (JObj kvs)
  then show ?thesis by simp
next
  case (JArr xs)
  then show ?thesis using update_pairs_add[of d Map.empty xs] by simp
next
  case (JStr s)
  then show ?thesis using update_pairs_add[of d Map.empty "map (\<lambda>c. JStr [c]) s"] by simp
qed simp_all

lemma merge_images_add:
  "merge_images d out =
     (case merge_images Map.empty out of Inl ex \<Rightarrow> Inl ex | Inr m \<Rightarrow> Inr (d ++ m))"
proof (cases out)
  case (Raised m)
  then show ?thesis by (simp add: merge_images_def)
next
  case (Response r)
  show ?thesis
  proof (cases "json_body r")
    case (Inl m)
    then show ?thesis using Response by (simp add: merge_images_def)
  next
    case (Inr data)
    show ?thesis
    proof (cases "py_get data ''images'' (JObj [])")
      case (Inl ex)
      then show ?thesis using Response Inr by (simp add: merge_images_def split: sum.split)
    next
      case images: (Inr images)
      show ?thesis
        using Response Inr images dict_update_add[of d images]
        by (simp add: merge_images_def split: sum.split)
    qed
  qed
qed

lemma merge_images_mapping:
  "merge_images d out =
     (case chunk_mapping out of
        None \<Rightarrow> Inl (case merge_images Map.empty out of Inl ex \<Rightarrow> ex | Inr m \<Rightarrow> TypeError)
      | Some m \<Rightarrow> Inr (d ++ m))"
  unfolding chunk_mapping_def using merge_images_add[of d out]
  by (simp split: sum.split)

lemma chunk_fails_no_mapping: "chunk_fails out \<Longrightarrow> chunk_mapping out = None"
  unfolding chunk_fails_def chunk_mapping_def merge_images_def
  by (auto split: outcome.splits sum.splits json.splits option.splits)

lemma standard_chunk_mapping:
  assumes "status_code r = 200" "json_body r = Inr (JObj kvs)"
    "map_of kvs ''err'' = None \<or> map_of kvs ''err'' = Some JNull"
    "map_of kvs ''images'' = Some (JObj images)"
  shows "chunk_mapping (Response r) = Some (dict_of images)"
  unfolding chunk_mapping_def merge_images_def using assms by auto

subsection \<open>The slices\<close>

lemma concat_slices:
  "concat (map (\<lambda>k. take m (drop (k * m) xs)) [0 ..< q]) = take (q * m) xs"
proof (induction q)
  case 0
  then show ?case by simp
next
  case (Suc q)
  have "take (q * m) xs @ take m (drop (q * m) xs) = take (q * m + m) xs"
    by (simp add: take_add)
  then show ?case using Suc by (simp add: add.commute)
qed

lemma batches_slices:
  "batches ids = map (\<lambda>k. take 100 (drop (k * 100) ids)) [0 ..< (length ids + 99) div 100]"
  by (simp add: batches_def py_range_def max_ids_per_request_def comp_def add.commute)

lemma batches_length: "length (batches ids) = (length ids + 99) div 100"
  by (simp add: batches_slices)


lemma slice_index: "j < (n + 99) div 100 \<longleftrightarrow> j * 100 < (n::nat)"
proof -
  have "j < (n + 99) div 100 \<longleftrightarrow> Suc j \<le> (n + 99) div 100" by (simp add: Suc_le_eq)
  also have "\<dots> \<longleftrightarrow> Suc j * 100 \<le> n + 99"
    by (simp add: less_eq_div_iff_mult_less_eq)
  also have "\<dots> \<longleftrightarrow> j * 100 < n" by auto
  finally show ?thesis .
qed

lemma slices_cover: "(n::nat) \<le> ((n + 99) div 100) * 100"
proof -
  have "(n + 99) div 100 * 100 + (n + 99) mod 100 = n + 99" by (rule div_mult_mod_eq)
  moreover have "(n + 99) mod 100 < 100" by simp
  ultimately show ?thesis by linarith
qed

lemma batches_concat: "concat (batches ids) = ids"
  unfolding batches_slices concat_slices using slices_cover[of "length ids"] by simp

lemma batches_nth:
  assumes "j < length (batches ids)"
  shows "batches ids ! j = take 100 (drop (j * 100) ids)" and "j * 100 < length ids"
proof -
  from assms have j: "j < (length ids + 99) div 100" by (simp add: batches_length)
  then show "batches ids ! j = take 100 (drop (j * 100) ids)"
    by (simp add: batches_slices)
  from j show "j * 100 < length ids" by (simp only: slice_index)
qed

lemma batches_sizes:
  "list_all (\<lambda>b. 0 < length b \<and> length b \<le> 100) (batches ids)"
proof -
  have "0 < length b \<and> length b \<le> 100" if "b \<in> set (batches ids)" for b
  proof -
    from that obtain j where j: "j < length (batches ids)" "b = batches ids ! j"
      by (auto simp: in_set_conv_nth)
    then show ?thesis using batches_nth[OF j(1)] by simp
  qed
  then show ?thesis by (simp add: list_all_iff)
qed

lemma batches_full:
  assumes "Suc j < length (batches ids)"
  shows "length (batches ids ! j) = 100"
proof -
  have "Suc j * 100 < length ids" using batches_nth(2)[OF assms] .
  moreover have "j < length (batches ids)" using assms by simp
  ultimately show ?thesis using batches_nth(1)[of j ids] by simp
qed

lemma batches_250:
  assumes "length ids = 250"
  shows "map length (batches ids) = [100, 100, 50]"
proof -
  have "[0 ..< (250 + 99) div 100] = [0, 1, 2::nat]"
    by (simp add: upt_rec)
  then show ?thesis unfolding batches_slices assms using assms by simp
qed

subsection \<open>The loop\<close>

lemma py_join_strs:
  assumes "list_all is_str b"
  shows "py_join sep b = Inr (join_strs sep (map (\<lambda>x. the (str_of x)) b))"
proof -
  have "list_all (\<lambda>x. str_of x \<noteq> None) b"
    using assms by (simp add: is_str_def list_all_iff)
  then show ?thesis by (simp add: py_join_def)
qed

lemma py_join_Inr:
  assumes "py_join sep b = Inr s"
  shows "s = join_strs sep (map (\<lambda>x. the (str_of x)) b)"
  using assms by (simp add: py_join_def split: if_splits)

lemma fetch_batch_joined:
  assumes "py_join '','' b = Inr s"
  shows "fetch_batch e k sc fm b d w =
     (merge_images d (net e (sent w) (batch_request e k sc fm b)),
      w\<lparr>sent := sent w @ [(batch_request e k sc fm b, net e (sent w) (batch_request e k sc fm b))]\<rparr>)"
  unfolding fetch_batch_def requests_get_def batch_request_def Let_def
  using assms py_join_Inr[OF assms] by simp

lemma fetch_batch_unjoined:
  assumes "py_join '','' b = Inl ex"
  shows "fetch_batch e k sc fm b d w = (Inl ex, w)"
  unfolding fetch_batch_def using assms by simp

lemma fetch_batches_run:
  assumes "fetch_batches e k sc fm ids is d w = (res, w')"
  shows "\<exists>new. sent w' = sent w @ new \<and> fs w' = fs w \<and> logged w' = logged w
     \<and> (\<forall>m. res = Inr m \<longrightarrow>
            list_all (\<lambda>x. chunk_mapping (snd x) \<noteq> None) new
            \<and> map fst new
                = map (\<lambda>i. batch_request e k sc fm (take max_ids_per_request (drop i ids))) is
            \<and> m = foldl (++) d (map (\<lambda>x. the (chunk_mapping (snd x))) new))
     \<and> (\<forall>ex. res = Inl ex \<and> list_all is_str ids \<longrightarrow>
            (\<exists>x \<in> set new. chunk_mapping (snd x) = None))"
  using assms
proof (induction "is" arbitrary: d w)
  case Nil
  then show ?case by auto
next
  case (Cons i "is")
  define b where "b = take max_ids_per_request (drop i ids)"
  show ?case
  proof (cases "py_join '','' b")
    case (Inl ex)
    then have r: "res = Inl ex" "w' = w"
      using Cons.prems fetch_batch_unjoined[OF Inl, of e k sc fm d w] by (simp_all add: b_def)
    have "\<not> list_all is_str ids"
    proof
      assume "list_all is_str ids"
      then have "list_all is_str b"
        unfolding b_def list_all_iff by (meson in_set_dropD in_set_takeD)
      then show False using py_join_strs[of b "'',''"] Inl by simp
    qed
    then show ?thesis using r by simp
  next
    case (Inr s)
    define req where "req = batch_request e k sc fm b"
    define out where "out = net e (sent w) req"
    define w1 where "w1 = w\<lparr>sent := sent w @ [(req, out)]\<rparr>"
    have fb: "fetch_batch e k sc fm b d w = (merge_images d out, w1)"
      using fetch_batch_joined[OF Inr, of e k sc fm d w] by (simp add: req_def out_def w1_def)
    show ?thesis
    proof (cases "chunk_mapping out")
      case None
      then obtain ex where m: "merge_images d out = Inl ex"
        using merge_images_mapping[of d out] by simp
      then have r: "res = Inl ex" "w' = w1"
        using Cons.prems fb by (simp_all add: b_def)
      show ?thesis
        unfolding r using None
        by (intro exI[of _ "[(req, out)]"]) (simp add: w1_def)
    next
      case (Some m1)
      then have m: "merge_images d out = Inr (d ++ m1)"
        using merge_images_mapping[of d out] by simp
      then have rec: "fetch_batches e k sc fm ids is (d ++ m1) w1 = (res, w')"
        using Cons.prems fb by (simp add: b_def)
      from Cons.IH[OF rec] obtain new where new:
        "sent w' = sent w1 @ new" "fs w' = fs w1" "logged w' = logged w1"
        "\<forall>m. res = Inr m \<longrightarrow>
            list_all (\<lambda>x. chunk_mapping (snd x) \<noteq> None) new
            \<and> map fst new
                = map (\<lambda>i. batch_request e k sc fm (take max_ids_per_request (drop i ids))) is
            \<and> m = foldl (++) (d ++ m1) (map (\<lambda>x. the (chunk_mapping (snd x))) new)"
        "\<forall>ex. res = Inl ex \<and> list_all is_str ids \<longrightarrow>
            (\<exists>x \<in> set new. chunk_mapping (snd x) = None)"
        by blast
      show ?thesis
      proof (intro exI[of _ "(req, out) # new"] conjI allI impI)
        show "sent w' = sent w @ (req, out) # new" using new(1) by (simp add: w1_def)
        show "fs w' = fs w" using new(2) by (simp add: w1_def)
        show "logged w' = logged w" using new(3) by (simp add: w1_def)
      next
        fix m assume "res = Inr m"
        then have a: "list_all (\<lambda>x. chunk_mapping (snd x) \<noteq> None) new"
          "map fst new
             = map (\<lambda>i. batch_request e k sc fm (take max_ids_per_request (drop i ids))) is"
          "m = foldl (++) (d ++ m1) (map (\<lambda>x. the (chunk_mapping (snd x))) new)"
          using new(4) by blast+
        show "list_all (\<lambda>x. chunk_mapping (snd x) \<noteq> None) ((req, out) # new)"
          using a(1) Some by simp
        show "map fst ((req, out) # new)
             = map (\<lambda>i. batch_request e k sc fm (take max_ids_per_request (drop i ids))) (i # is)"
          using a(2) by (simp add: req_def b_def)
        show "m = foldl (++) d (map (\<lambda>x. the (chunk_mapping (snd x))) ((req, out) # new))"
          using a(3) Some by simp
      next
        fix ex assume "res = Inl ex \<and> list_all is_str ids"
        then show "\<exists>x \<in> set ((req, out) # new). chunk_mapping (snd x) = None"
          using new(5) by auto
      qed
    qed
  qed
qed

lemma fetch_images_run:
  assumes "fetch_figma_frame_images e k ids sc fm w = (res, w')"
  shows "sent w' = sent w @ new_exchanges w w' \<and> fs w' = fs w \<and> logged w' = logged w
     \<and> (\<forall>m. res = Inr m \<longrightarrow>
            list_all (\<lambda>x. chunk_mapping (snd x) \<noteq> None) (new_exchanges w w')
            \<and> map fst (new_exchanges w w') = map (batch_request e k sc fm) (batches ids)
            \<and> m = foldl (++) Map.empty
                    (map (\<lambda>x. the (chunk_mapping (snd x))) (new_exchanges w w')))
     \<and> (\<forall>ex. res = Inl ex \<and> list_all is_str ids \<longrightarrow>
            (\<exists>x \<in> set (new_exchanges w w'). chunk_mapping (snd x) = None))"
proof -
  from fetch_batches_run[OF assms[unfolded fetch_figma_frame_images_def]]
  obtain new where new: "sent w' = sent w @ new" "fs w' = fs w" "logged w' = logged w"
    "\<forall>m. res = Inr m \<longrightarrow>
            list_all (\<lambda>x. chunk_mapping (snd x) \<noteq> None) new
            \<and> map fst new
                = map (\<lambda>i. batch_request e k sc fm (take max_ids_per_request (drop i ids)))
                    (py_range (length ids) max_ids_per_request)
            \<and> m = foldl (++) Map.empty (map (\<lambda>x. the (chunk_mapping (snd x))) new)"
    "\<forall>ex. res = Inl ex \<and> list_all is_str ids \<longrightarrow>
            (\<exists>x \<in> set new. chunk_mapping (snd x) = None)"
    by blast
  have n: "new_exchanges w w' = new" by (simp add: new_exchanges_def new(1))
  have b: "map (\<lambda>i. batch_request e k sc fm (take max_ids_per_request (drop i ids)))
             (py_range (length ids) max_ids_per_request)
           = map (batch_request e k sc fm) (batches ids)"
    by (simp add: batches_def comp_def)
  show ?thesis unfolding n using new b by simp
qed

lemma dom_foldl_add: "dom (foldl (++) d ms) = dom d \<union> (\<Union>m \<in> set ms. dom m)"
  by (induction ms arbitrary: d) auto

lemma chunk_ok_mapping:
  assumes "chunk_ok out"
  shows "chunk_mapping out = Some (chunk_urls out)"
proof (cases out)
  case (Raised m)
  then show ?thesis using assms by (simp add: chunk_ok_def)
next
  case (Response r)
  then have s: "status_code r = 200" using assms by (simp add: chunk_ok_def)
  show ?thesis
  proof (cases "json_body r")
    case (Inl m)
    then show ?thesis using assms Response by (simp add: chunk_ok_def)
  next
    case (Inr data)
    then obtain kvs where kvs: "data = JObj kvs"
      using assms Response by (cases data) (simp_all add: chunk_ok_def)
    have err: "case map_of kvs ''err'' of None \<Rightarrow> True | Some v \<Rightarrow> \<not> truthy v"
      and im: "case map_of kvs ''images'' of None \<Rightarrow> True | Some (JObj images) \<Rightarrow> True
               | Some other \<Rightarrow> False"
      using assms Response Inr kvs by (simp_all add: chunk_ok_def)
    have e: "\<not> truthy (case map_of kvs ''err'' of None \<Rightarrow> JNull | Some v \<Rightarrow> v)"
      using err by (simp split: option.splits)
    have d: "dict_update Map.empty (case map_of kvs ''images'' of None \<Rightarrow> JObj [] | Some v \<Rightarrow> v)
        = Inr (Map.empty ++ (case map_of kvs ''images'' of Some (JObj images) \<Rightarrow> dict_of images
                             | _ \<Rightarrow> dict_of []))"
      using im by (simp split: option.splits json.splits)
    show ?thesis
      unfolding chunk_mapping_def merge_images_def chunk_urls_def Response
      using s Inr kvs e d by simp
  qed
qed

lemma split_on_nonempty: "split_on c s \<noteq> []"
  by (induction s) (auto split: list.splits)

lemma split_on_plain: "c \<notin> set s \<Longrightarrow> split_on c s = [s]"
  by (induction s) auto

lemma split_on_append:
  assumes "c \<notin> set s"
  shows "split_on c (s @ c # t) = s # split_on c t"
  using assms by (induction s) auto

lemma split_on_join:
  assumes "xs \<noteq> []" "\<forall>x \<in> set xs. c \<notin> set x"
  shows "split_on c (join_strs [c] xs) = xs"
  using assms
proof (induction "[c]" xs rule: join_strs.induct)
  case 1
  then show ?case by simp
next
  case (2 s)
  then show ?case by (simp add: split_on_plain)
next
  case (3 s t ss)
  then have "split_on c (join_strs [c] (t # ss)) = t # ss" by simp
  moreover have "c \<notin> set s" using 3 by simp
  ultimately show ?case using split_on_append[of c s "join_strs [c] (t # ss)"] by simp
qed

lemma chunk_batches:
  "batches ids = map (\<lambda>i. chunk i ids) [0 ..< chunk_count (length ids)]"
  unfolding batches_slices chunk_def chunk_count_def by (simp add: mult.commute)

lemma chunk_count_length: "length (batches ids) = chunk_count (length ids)"
  by (simp add: chunk_batches)

lemma chunk_nth:
  assumes "i < chunk_count (length ids)"
  shows "batches ids ! i = chunk i ids"
  using assms by (simp add: chunk_batches)

lemma chunk_strs:
  assumes "list_all is_str ids"
  shows "map (\<lambda>x. the (str_of x)) (chunk i ids) = chunk i (strs ids)"
  unfolding chunk_def strs_def by (simp add: take_map drop_map)

text \<open>
  C2. Chunk \<open>i\<close> of the identifier list holds the identifiers from position \<open>100 * i\<close> on,
  at most 100: the chunks are consecutive and in order, none is empty, all but the last
  hold exactly 100, and 250 identifiers give chunks of 100, 100 and 50. When the
  identifiers are strings and every request the run sends succeeds, the run sends
  exactly one request per chunk, in order; request \<open>i\<close> goes to the images endpoint of
  the document with the token header and carries, joined by commas, the identifiers of
  chunk \<open>i\<close> (read back from the request they are these identifiers, when no identifier
  has a comma). The run returns the union of the mappings of the responses, a later one
  winning: its keys are exactly the keys of these mappings.
\<close>

theorem fetch_figma_frame_images_batches:
  assumes "fetch_figma_frame_images e k ids sc fm w = (res, w')"
  shows "concat (map (\<lambda>i. chunk i ids) [0 ..< chunk_count (length ids)]) = ids
     \<and> (\<forall>i < chunk_count (length ids). 0 < length (chunk i ids) \<and> length (chunk i ids) \<le> 100)
     \<and> (\<forall>i. Suc i < chunk_count (length ids) \<longrightarrow> length (chunk i ids) = 100)
     \<and> (length ids = 250 \<longrightarrow>
          map (\<lambda>i. length (chunk i ids)) [0 ..< chunk_count (length ids)] = [100, 100, 50])
     \<and> (list_all is_str ids \<and> list_all (\<lambda>x. chunk_ok (snd x)) (new_exchanges w w')
        \<longrightarrow> sent w' = sent w @ new_exchanges w w'
          \<and> length (new_exchanges w w') = chunk_count (length ids)
          \<and> (\<forall>i < chunk_count (length ids).
                fst (new_exchanges w w' ! i) =
                  \<lparr>req_url = BASE_URL e @ ''/images/'' @ k,
                   req_headers = [(''X-Figma-Token'', FIGMA_API_TOKEN e)],
                   req_params = [(''ids'', JStr (join_strs '','' (chunk i (strs ids)))),
                                 (''scale'', sc), (''format'', fm),
                                 (''use_absolute_bounds'', JStr ''true'')]\<rparr>
                \<and> ((\<forall>s \<in> set (strs ids). CHR '','' \<notin> set s) \<longrightarrow>
                     request_ids (fst (new_exchanges w w' ! i)) = chunk i (strs ids)))
          \<and> res = Inr (foldl (++) Map.empty
                         (map (\<lambda>x. chunk_urls (snd x)) (new_exchanges w w')))
          \<and> (\<forall>m. res = Inr m \<longrightarrow>
                dom m = (\<Union>x \<in> set (new_exchanges w w'). dom (chunk_urls (snd x)))))"
proof (intro conjI allI impI)
  show "concat (map (\<lambda>i. chunk i ids) [0 ..< chunk_count (length ids)]) = ids"
    using batches_concat[of ids] by (simp only: chunk_batches)
next
  fix i assume i: "i < chunk_count (length ids)"
  then have "i < length (batches ids)" by (simp add: chunk_count_length)
  then have "batches ids ! i \<in> set (batches ids)" by simp
  then have "0 < length (batches ids ! i) \<and> length (batches ids ! i) \<le> 100"
    using batches_sizes[of ids] by (simp add: list_all_iff)
  then show "0 < length (chunk i ids)" "length (chunk i ids) \<le> 100"
    by (simp_all add: chunk_nth[OF i])
next
  fix i assume i: "Suc i < chunk_count (length ids)"
  then have "length (batches ids ! i) = 100"
    using batches_full[of i ids] by (simp add: chunk_count_length)
  moreover have "i < chunk_count (length ids)" using i by simp
  ultimately show "length (chunk i ids) = 100" by (simp add: chunk_nth)
next
  assume "length ids = 250"
  then have "map length (batches ids) = [100, 100, 50]" by (rule batches_250)
  then show "map (\<lambda>i. length (chunk i ids)) [0 ..< chunk_count (length ids)] = [100, 100, 50]"
    by (simp add: chunk_batches comp_def)
next
  assume a: "list_all is_str ids \<and> list_all (\<lambda>x. chunk_ok (snd x)) (new_exchanges w w')"
  note run = fetch_images_run[OF assms]
  have ok: "chunk_mapping (snd x) = Some (chunk_urls (snd x))"
    if "x \<in> set (new_exchanges w w')" for x
    using that a chunk_ok_mapping by (simp add: list_all_iff)
  have "\<not> (\<exists>ex. res = Inl ex)"
  proof
    assume "\<exists>ex. res = Inl ex"
    then obtain x where "x \<in> set (new_exchanges w w')" "chunk_mapping (snd x) = None"
      using run a by blast
    then show False using ok by simp
  qed
  then obtain m where m: "res = Inr m" by (cases res) auto
  have reqs: "map fst (new_exchanges w w') = map (batch_request e k sc fm) (batches ids)"
    using run m by blast
  have maps: "map (\<lambda>x. the (chunk_mapping (snd x))) (new_exchanges w w')
      = map (\<lambda>x. chunk_urls (snd x)) (new_exchanges w w')"
    using ok by (intro map_cong) simp_all
  show "sent w' = sent w @ new_exchanges w w'" using run by blast
  show len: "length (new_exchanges w w') = chunk_count (length ids)"
    using arg_cong[OF reqs, of length] by (simp add: chunk_count_length)
  show r: "res = Inr (foldl (++) Map.empty
                  (map (\<lambda>x. chunk_urls (snd x)) (new_exchanges w w')))"
    using run m unfolding maps[symmetric] by blast
  {
    fix i assume i: "i < chunk_count (length ids)"
    have "fst (new_exchanges w w' ! i) = map fst (new_exchanges w w') ! i"
      using i len by simp
    also have "\<dots> = batch_request e k sc fm (batches ids ! i)"
      unfolding reqs using i by (simp add: chunk_count_length)
    also have "\<dots> = \<lparr>req_url = BASE_URL e @ ''/images/'' @ k,
                   req_headers = [(''X-Figma-Token'', FIGMA_API_TOKEN e)],
                   req_params = [(''ids'', JStr (join_strs '','' (chunk i (strs ids)))),
                                 (''scale'', sc), (''format'', fm),
                                 (''use_absolute_bounds'', JStr ''true'')]\<rparr>"
      unfolding chunk_nth[OF i] batch_request_def images_request_def
      using chunk_strs[of ids i] a by simp
    finally show req: "fst (new_exchanges w w' ! i) =
                  \<lparr>req_url = BASE_URL e @ ''/images/'' @ k,
                   req_headers = [(''X-Figma-Token'', FIGMA_API_TOKEN e)],
                   req_params = [(''ids'', JStr (join_strs '','' (chunk i (strs ids)))),
                                 (''scale'', sc), (''format'', fm),
                                 (''use_absolute_bounds'', JStr ''true'')]\<rparr>" .
    assume nc: "\<forall>s \<in> set (strs ids). CHR '','' \<notin> set s"
    have "i < length (batches ids)" using i by (simp add: chunk_count_length)
    then have "0 < length (batches ids ! i)"
      using batches_sizes[of ids] by (simp add: list_all_iff)
    then have ne: "chunk i (strs ids) \<noteq> []"
      unfolding chunk_nth[OF i] chunk_def strs_def by auto
    have "\<forall>s \<in> set (chunk i (strs ids)). CHR '','' \<notin> set s"
      using nc unfolding chunk_def by (meson in_set_dropD in_set_takeD)
    from split_on_join[OF ne this]
    show "request_ids (fst (new_exchanges w w' ! i)) = chunk i (strs ids)"
      unfolding req request_ids_def by simp
  }
  fix m' assume "res = Inr m'"
  then have "m' = foldl (++) Map.empty
                  (map (\<lambda>x. chunk_urls (snd x)) (new_exchanges w w'))"
    using r by simp
  then show "dom m' = (\<Union>x \<in> set (new_exchanges w w'). dom (chunk_urls (snd x)))"
    by (simp add: dom_foldl_add)
qed

text \<open>
  C5. If any request of the run fails in one of the four ways (a transport failure,
  status 403, another status that is not 200, or status 200 with a truthy \<^verbatim>\<open>err\<close>
  field), the run ends with an exception: the result holds no mapping.
\<close>

theorem fetch_figma_frame_images_all_or_nothing:
  assumes "fetch_figma_frame_images e k ids sc fm w = (res, w')"
    and "\<exists>x \<in> set (new_exchanges w w'). chunk_fails (snd x)"
  shows "\<exists>ex. res = Inl ex"
proof (cases res)
  case (Inl ex)
  then show ?thesis by blast
next
  case (Inr m)
  then have "list_all (\<lambda>x. chunk_mapping (snd x) \<noteq> None) (new_exchanges w w')"
    using fetch_images_run[OF assms(1)] by blast
  moreover obtain x where "x \<in> set (new_exchanges w w')" "chunk_mapping (snd x) = None"
    using assms(2) chunk_fails_no_mapping by blast
  ultimately show ?thesis by (auto simp: list_all_iff)
qed

lemma test_images_request:
  "net (test_env test_net) h (batch_request (test_env test_net) ''ABC123'' sc fm b)
     = ok_response ''{...}'' (Inr test_images)"
  by (simp add: test_env_def test_net_def batch_request_def images_request_def)

lemma test_images_mapping:
  "chunk_mapping (ok_response ''{...}'' (Inr test_images))
     = Some (dict_of [(''1:1'', JStr ''https://cdn/1.png'')])"
  by (simp add: chunk_mapping_def merge_images_def ok_response_def test_images_def)

lemma test_render_run:
  "fetch_figma_frame_images (test_env test_net) ''ABC123'' [JStr ''1:1''] (JInt 1) (JStr ''png'') w
     = (Inr (Map.empty ++ dict_of [(''1:1'', JStr ''https://cdn/1.png'')]),
        w\<lparr>sent := sent w
              @ [(batch_request (test_env test_net) ''ABC123'' (JInt 1) (JStr ''png'') [JStr ''1:1''],
                  ok_response ''{...}'' (Inr test_images))]\<rparr>)"
proof -
  have j: "py_join '','' [JStr ''1:1''] = Inr ''1:1''" by (simp add: py_join_def)
  have r: "py_range (length [JStr ''1:1'']) max_ids_per_request = [0]"
    by (simp add: py_range_def max_ids_per_request_def)
  show ?thesis
    unfolding fetch_figma_frame_images_def r
    using fetch_batch_joined[OF j, of "test_env test_net" "''ABC123''" "JInt 1" "JStr ''png''"
        Map.empty w]
      merge_images_mapping[of Map.empty "ok_response ''{...}'' (Inr test_images)"]
    by (simp add: test_images_request test_images_mapping max_ids_per_request_def)
qed

lemma dom_dict_of: "dom (dict_of kvs) = JStr ` fst ` set kvs"
proof (intro set_eqI iffI)
  fix x assume "x \<in> dom (dict_of kvs)"
  then obtain s where "x = JStr s" "map_of kvs s \<noteq> None"
    by (cases x) (auto simp: dict_of_def)
  then show "x \<in> JStr ` fst ` set kvs"
    by (auto simp: map_of_eq_None_iff)
next
  fix x assume "x \<in> JStr ` fst ` set kvs"
  then obtain s where s: "x = JStr s" "s \<in> fst ` set kvs" by blast
  then have "map_of kvs s \<noteq> None" by (simp add: map_of_eq_None_iff)
  then show "x \<in> dom (dict_of kvs)"
    using s(1) by (auto simp: dict_of_def)
qed

lemma dom_chunk_urls: "dom (chunk_urls out) = JStr ` set (chunk_keys out)"
proof -
  have e: "dom (dict_of []) = JStr ` set []" by (simp add: dom_dict_of)
  show ?thesis
    unfolding chunk_urls_def chunk_keys_def
    by (simp add: dom_dict_of e split: outcome.splits sum.splits json.splits option.splits)
qed

lemma test_ids_strs: "list_all is_str test_ids"
  by code_simp

lemma render_run_ok:
  "list_all (\<lambda>x. chunk_ok (snd x)) (new_exchanges test_world (snd render_run))"
  by code_simp

lemma test_ids_no_comma: "\<forall>s \<in> set (strs test_ids). CHR '','' \<notin> set s"
  by code_simp

lemma test_ids_chunks: "chunk_count (length test_ids) = 3"
  by code_simp

lemma render_run_keys:
  "concat (map (\<lambda>x. chunk_keys (snd x)) (new_exchanges test_world (snd render_run)))
     = strs test_ids"
  by code_simp

lemma render_run_lookups:
  "(case fst render_run of
      Inr m \<Rightarrow> [m (JStr ''1:000''), m (JStr ''1:150''), m (JStr ''1:249''), m (JStr ''1:250'')]
               = [Some (JStr ''https://cdn/1:000.png''), Some (JStr ''https://cdn/1:150.png''),
                  Some (JStr ''https://cdn/1:249.png''), None]
    | Inl ex \<Rightarrow> False)"
  by code_simp

lemma test_chunks:
  "map (\<lambda>i. (length (chunk i (strs test_ids)), hd (chunk i (strs test_ids)),
               last (chunk i (strs test_ids)))) [0, 1, 2]
     = [(100, ''1:000'', ''1:099''), (100, ''1:100'', ''1:199''), (50, ''1:200'', ''1:249'')]"
  by code_simp

lemma test_ids_set: "JStr ` set (strs test_ids) = set test_ids"
  unfolding strs_def test_ids_def by (simp add: image_image)

lemma three_items:
  assumes "length xs = 3"
  shows "xs = [xs ! 0, xs ! 1, xs ! 2]"
proof -
  obtain a b c where "xs = [a, b, c]"
    using assms by (cases xs; cases "tl xs"; cases "tl (tl xs)") auto
  then show ?thesis by simp
qed

theorem fetch_figma_frame_images_batches_witness:
  "map (\<lambda>x. (length (request_ids (fst x)), hd (request_ids (fst x)), last (request_ids (fst x))))
       (new_exchanges test_world (snd render_run))
     = [(100, ''1:000'', ''1:099''), (100, ''1:100'', ''1:199''), (50, ''1:200'', ''1:249'')]
   \<and> (\<exists>m. fst render_run = Inr m
          \<and> [m (JStr ''1:000''), m (JStr ''1:150''), m (JStr ''1:249''), m (JStr ''1:250'')]
               = [Some (JStr ''https://cdn/1:000.png''), Some (JStr ''https://cdn/1:150.png''),
                  Some (JStr ''https://cdn/1:249.png''), None]
          \<and> dom m = set test_ids)"
proof -
  let ?new = "new_exchanges test_world (snd render_run)"
  have run: "fetch_figma_frame_images (test_env render_net) ''ABC123'' test_ids (JInt 1)
                (JStr ''png'') test_world = (fst render_run, snd render_run)"
    unfolding render_run_def by (rule surjective_pairing)
  note inst = fetch_figma_frame_images_batches[OF run]
  have hyp: "list_all is_str test_ids \<and> list_all (\<lambda>x. chunk_ok (snd x)) ?new"
    using test_ids_strs render_run_ok by (rule conjI)
  note concl = mp[OF inst[THEN conjunct2, THEN conjunct2, THEN conjunct2, THEN conjunct2] hyp]
  have len: "length ?new = 3"
    using concl[THEN conjunct2, THEN conjunct1] by (simp only: test_ids_chunks)
  have ids: "request_ids (fst (?new ! i)) = chunk i (strs test_ids)" if "i < 3" for i
  proof -
    have "i < chunk_count (length test_ids)" using that by (simp only: test_ids_chunks)
    then show ?thesis
      using concl[THEN conjunct2, THEN conjunct2, THEN conjunct1] test_ids_no_comma by blast
  qed
  have res: "fst render_run = Inr (foldl (++) Map.empty (map (\<lambda>x. chunk_urls (snd x)) ?new))"
    by (rule concl[THEN conjunct2, THEN conjunct2, THEN conjunct2, THEN conjunct1])
  then obtain m where m: "fst render_run = Inr m" by blast
  have "dom m = (\<Union>x \<in> set ?new. dom (chunk_urls (snd x)))"
    using concl[THEN conjunct2, THEN conjunct2, THEN conjunct2, THEN conjunct2] m by blast
  also have "\<dots> = JStr ` set (concat (map (\<lambda>x. chunk_keys (snd x)) ?new))"
    by (auto simp: dom_chunk_urls)
  also have "\<dots> = set test_ids" unfolding render_run_keys by (rule test_ids_set)
  finally have d: "dom m = set test_ids" .
  have l: "[m (JStr ''1:000''), m (JStr ''1:150''), m (JStr ''1:249''), m (JStr ''1:250'')]
               = [Some (JStr ''https://cdn/1:000.png''), Some (JStr ''https://cdn/1:150.png''),
                  Some (JStr ''https://cdn/1:249.png''), None]"
    using render_run_lookups unfolding m by simp
  have "map (\<lambda>x. (length (request_ids (fst x)), hd (request_ids (fst x)),
                    last (request_ids (fst x)))) ?new
      = map (\<lambda>i. (length (chunk i (strs test_ids)), hd (chunk i (strs test_ids)),
                    last (chunk i (strs test_ids)))) [0, 1, 2]"
    by (subst three_items[OF len]) (simp add: ids)
  then have r: "map (\<lambda>x. (length (request_ids (fst x)), hd (request_ids (fst x)),
                    last (request_ids (fst x)))) ?new
      = [(100, ''1:000'', ''1:099''), (100, ''1:100'', ''1:199''), (50, ''1:200'', ''1:249'')]"
    by (simp only: test_chunks)
  show ?thesis using r m l d by blast
qed

lemma fetch_batch_strs:
  assumes "list_all is_str ids"
  shows "fetch_batch e k sc fm (take n (drop i ids)) d w =
     (merge_images d (net e (sent w) (batch_request e k sc fm (take n (drop i ids)))),
      w\<lparr>sent := sent w @ [(batch_request e k sc fm (take n (drop i ids)),
                             net e (sent w) (batch_request e k sc fm (take n (drop i ids))))]\<rparr>)"
proof -
  have "list_all is_str (take n (drop i ids))"
    using assms unfolding list_all_iff by (meson in_set_dropD in_set_takeD)
  from fetch_batch_joined[OF py_join_strs[OF this]] show ?thesis .
qed

lemma flaky_run:
  "fetch_figma_frame_images (test_env flaky_net) ''ABC123'' (replicate 101 (JStr ''1:1''))
       (JInt 1) (JStr ''png'') test_world
   = (Inl (Exception [Lit ''Access denied: Check token permissions'']),
      test_world\<lparr>sent :=
        [(batch_request (test_env flaky_net) ''ABC123'' (JInt 1) (JStr ''png'')
            (take 100 (drop 0 (replicate 101 (JStr ''1:1'')))),
          ok_response ''{...}'' (Inr test_images)),
         (batch_request (test_env flaky_net) ''ABC123'' (JInt 1) (JStr ''png'')
            (take 100 (drop 100 (replicate 101 (JStr ''1:1'')))),
          Response \<lparr>status_code = 403, resp_text = ''Forbidden'', resp_content = ''Forbidden'',
                     json_body = Inl ''Expecting value''\<rparr>)]\<rparr>)"
proof -
  have strs: "list_all is_str (replicate 101 (JStr ''1:1''))"
    by (simp add: list_all_iff is_str_def)
  have r: "py_range (length (replicate 101 (JStr ''1:1''))) max_ids_per_request = [0, 100]"
    by (simp add: py_range_def max_ids_per_request_def upt_rec)
  have n: "net (test_env flaky_net) = flaky_net" by (simp add: test_env_def)
  have m1: "merge_images Map.empty (ok_response ''{...}'' (Inr test_images))
      = Inr (Map.empty ++ dict_of [(''1:1'', JStr ''https://cdn/1.png'')])"
    using merge_images_mapping[of Map.empty "ok_response ''{...}'' (Inr test_images)"]
    by (simp add: test_images_mapping)
  have m2: "merge_images d (Response \<lparr>status_code = 403, resp_text = ''Forbidden'',
                     resp_content = ''Forbidden'', json_body = Inl ''Expecting value''\<rparr>)
      = Inl (Exception [Lit ''Access denied: Check token permissions''])" for d
    by (simp add: merge_images_def)
  have s1: "fetch_batch (test_env flaky_net) ''ABC123'' (JInt 1) (JStr ''png'')
               (take max_ids_per_request (drop 0 (replicate 101 (JStr ''1:1'')))) Map.empty test_world
      = (Inr (Map.empty ++ dict_of [(''1:1'', JStr ''https://cdn/1.png'')]),
         test_world\<lparr>sent :=
           [(batch_request (test_env flaky_net) ''ABC123'' (JInt 1) (JStr ''png'')
               (take 100 (drop 0 (replicate 101 (JStr ''1:1'')))),
             ok_response ''{...}'' (Inr test_images))]\<rparr>)"
    unfolding fetch_batch_strs[OF strs] n max_ids_per_request_def
    by (simp add: flaky_net_def test_world_def m1)
  have s2: "fetch_batch (test_env flaky_net) ''ABC123'' (JInt 1) (JStr ''png'')
               (take max_ids_per_request (drop 100 (replicate 101 (JStr ''1:1''))))
               (Map.empty ++ dict_of [(''1:1'', JStr ''https://cdn/1.png'')])
               (test_world\<lparr>sent :=
           [(batch_request (test_env flaky_net) ''ABC123'' (JInt 1) (JStr ''png'')
               (take 100 (drop 0 (replicate 101 (JStr ''1:1'')))),
             ok_response ''{...}'' (Inr test_images))]\<rparr>)
      = (Inl (Exception [Lit ''Access denied: Check token permissions'']),
         test_world\<lparr>sent :=
        [(batch_request (test_env flaky_net) ''ABC123'' (JInt 1) (JStr ''png'')
            (take 100 (drop 0 (replicate 101 (JStr ''1:1'')))),
          ok_response ''{...}'' (Inr test_images)),
         (batch_request (test_env flaky_net) ''ABC123'' (JInt 1) (JStr ''png'')
            (take 100 (drop 100 (replicate 101 (JStr ''1:1'')))),
          Response \<lparr>status_code = 403, resp_text = ''Forbidden'', resp_content = ''Forbidden'',
                     json_body = Inl ''Expecting value''\<rparr>)]\<rparr>)"
    unfolding fetch_batch_strs[OF strs] n max_ids_per_request_def
    by (simp add: flaky_net_def test_world_def m2)
  show ?thesis
    unfolding fetch_figma_frame_images_def r fetch_batches.simps s1 prod.case sum.case s2
    by (rule refl)
qed

theorem fetch_figma_frame_images_all_or_nothing_witness:
  "chunk_mapping (snd (hd (new_exchanges test_world
       (snd (fetch_figma_frame_images (test_env flaky_net) ''ABC123''
               (replicate 101 (JStr ''1:1'')) (JInt 1) (JStr ''png'') test_world)))))
     = Some (dict_of [(''1:1'', JStr ''https://cdn/1.png'')])
   \<and> (\<exists>ex. fst (fetch_figma_frame_images (test_env flaky_net) ''ABC123''
               (replicate 101 (JStr ''1:1'')) (JInt 1) (JStr ''png'') test_world) = Inl ex)"
proof (intro conjI)
  show "chunk_mapping (snd (hd (new_exchanges test_world
       (snd (fetch_figma_frame_images (test_env flaky_net) ''ABC123''
               (replicate 101 (JStr ''1:1'')) (JInt 1) (JStr ''png'') test_world)))))
     = Some (dict_of [(''1:1'', JStr ''https://cdn/1.png'')])"
    unfolding flaky_run by (simp add: new_exchanges_def test_world_def test_images_mapping)
  have "\<exists>x \<in> set (new_exchanges test_world
       (snd (fetch_figma_frame_images (test_env flaky_net) ''ABC123''
               (replicate 101 (JStr ''1:1'')) (JInt 1) (JStr ''png'') test_world))).
          chunk_fails (snd x)"
    unfolding flaky_run by (simp add: new_exchanges_def test_world_def chunk_fails_def)
  then show "\<exists>ex. fst (fetch_figma_frame_images (test_env flaky_net) ''ABC123''
               (replicate 101 (JStr ''1:1'')) (JInt 1) (JStr ''png'') test_world) = Inl ex"
    using fetch_figma_frame_images_all_or_nothing[OF surjective_pairing] by blast
qed

end
